theory Spec2Isabelle
  imports Main "HOL-Library.Char_ord" "HOL-Library.List_Lexorder" "HOL-Library.Option_ord"
begin

section \<open>The person entity (myApp.js, personSchema)\<close>

text \<open>
  The schema of lines 17-21 declares three fields: \<^verbatim>\<open>name\<close> (a required string),
  \<^verbatim>\<open>age\<close> (an optional number) and \<^verbatim>\<open>favoriteFoods\<close> (an array of strings).
  Every stored document also carries the identifier \<^verbatim>\<open>_id\<close> that the store manages.
  Ages are only ever compared and copied, never computed with, so the numbers are integers
  here. Strings are ordered byte by byte, lexicographically.
\<close>

type_synonym oid = nat

record person =
  pid :: oid
  name :: string
  age :: "int option"
  favoriteFoods :: "string list"

text \<open>A plain object handed to \<^verbatim>\<open>new Person\<close> or \<^verbatim>\<open>Person.create\<close>: the
  name may be missing.\<close>

record payload =
  p_name :: "string option"
  p_age :: "int option"
  p_favoriteFoods :: "string list"

text \<open>A document built by \<^verbatim>\<open>new Person\<close> and not saved yet: the identifier is
  assigned at construction, the fields are not validated before the save.\<close>

record draft =
  d_id :: oid
  d_fields :: payload

text \<open>A document as a query returns it: a projection may hide any field.\<close>

record person_view =
  v_id :: "oid option"
  v_name :: "string option"
  v_age :: "int option"
  v_favoriteFoods :: "string list option"

datatype error =
    StoreError string
  | ValidationError string
  | DuplicateKey oid
  | DocumentNotFound oid

datatype exn = TypeError string

section \<open>Queries\<close>

text \<open>The two shapes of conditions object the source writes: \<^verbatim>\<open>{name: n}\<close> and
  \<^verbatim>\<open>{favoriteFoods: f}\<close> (membership in the array).\<close>

datatype conditions = NameIs string | FavoriteFoodsHas string

datatype field = F_id | F_name | F_age | F_favoriteFoods

datatype sort_field = By_id | By_name | By_age

text \<open>\<^verbatim>\<open>1\<close> is \<open>Asc\<close> and \<^verbatim>\<open>-1\<close> is \<open>Desc\<close> (comment of line 198).\<close>

datatype direction = Asc | Desc

text \<open>The pending-query object that \<^verbatim>\<open>Person.find\<close> returns and the query helpers
  \<^verbatim>\<open>sort\<close>, \<^verbatim>\<open>limit\<close>, \<^verbatim>\<open>select\<close> fill in.\<close>

record query =
  q_conditions :: conditions
  q_sort :: "(sort_field \<times> direction) option"
  q_limit :: "nat option"
  q_select :: "(field \<times> nat) list"

section \<open>Values, events and the world\<close>

text \<open>JavaScript values that reach a callback.\<close>

datatype val =
    Null
  | Undefined
  | Doc person
  | Docs "person list"
  | Views "person_view list"
  | Summary nat
  | Err error

datatype store_req =
    ReqInsert "draft list"
  | ReqUpdate person
  | ReqFind query
  | ReqFindOne conditions
  | ReqFindById oid
  | ReqFindByIdAndRemove oid
  | ReqRemove conditions

text \<open>
  Everything an operation does that can be observed, in the order it happens: a request
  sent to the store, the store's answer \<^verbatim>\<open>(err, data)\<close>, a line written by
  \<^verbatim>\<open>console.error\<close>, an invocation of the completion callback \<^verbatim>\<open>done\<close> with its
  argument list, and an exception that leaves a callback uncaught.
\<close>

datatype event =
    StoreCall store_req
  | StoreReply "error option" val
  | ConsoleError error
  | Done "val list"
  | Uncaught exn

text \<open>
  The world an operation runs in: the collection in insertion order, the next identifier
  to hand out, the failures the environment has in store for the coming store calls (one
  entry per call, \<open>None\<close> or an exhausted list for a call that goes through), and the
  trace of events so far.
\<close>

record world =
  people :: "person list"
  next_oid :: oid
  faults :: "error option list"
  trace :: "event list"

type_synonym reply = "error option \<times> val"

type_synonym callback = "reply \<Rightarrow> world \<Rightarrow> world"

definition emit :: "event \<Rightarrow> world \<Rightarrow> world" where
  "emit ev w = w\<lparr>trace := trace w @ [ev]\<rparr>"

definition console_error :: "error \<Rightarrow> world \<Rightarrow> world" where
  "console_error e = emit (ConsoleError e)"

definition done_cb :: "val list \<Rightarrow> world \<Rightarrow> world" where
  "done_cb args = emit (Done args)"

text \<open>An exception thrown inside a callback: nothing catches it, and the rest of the
  callback does not run.\<close>

definition throw :: "exn \<Rightarrow> world \<Rightarrow> world" where
  "throw x = emit (Uncaught x)"

section \<open>The document store\<close>

text \<open>Modelled from the spec: the document-store client (the mongoose library and the
  database behind it) is not part of the repository's sources. Section 6 of the spec gives
  its contract; the definitions of this section follow it on an in-memory collection.\<close>

text \<open>Modelled from the spec: exact-match filter on the name, array-membership filter on
  the favourite foods.\<close>

fun matches :: "conditions \<Rightarrow> person \<Rightarrow> bool" where
  "matches (NameIs n) p = (name p = n)"
| "matches (FavoriteFoodsHas f) p = (f \<in> set (favoriteFoods p))"

text \<open>Modelled from the spec: one contact with the store. The request is sent, the store
  answers with an error (the environment's fault for this call, or the failure of the
  operation itself) or with a result, and the callback runs once on the answer.\<close>

definition store_call :: "store_req \<Rightarrow> (world \<Rightarrow> reply \<times> world) \<Rightarrow> callback \<Rightarrow> world \<Rightarrow> world" where
  "store_call req serve k w =
     (let w1 = emit (StoreCall req) w;
          (r, w2) = (case faults w1 of
                       [] \<Rightarrow> serve w1
                     | None # rest \<Rightarrow> serve (w1\<lparr>faults := rest\<rparr>)
                     | Some e # rest \<Rightarrow> ((Some e, Undefined), w1\<lparr>faults := rest\<rparr>))
      in k r (emit (StoreReply (fst r) (snd r)) w2))"

text \<open>Modelled from the spec: schema validation, "name must be present on creation".\<close>

definition validate :: "draft \<Rightarrow> error + person" where
  "validate d =
     (case p_name (d_fields d) of
        None \<Rightarrow> Inl (ValidationError ''name'')
      | Some n \<Rightarrow> Inr \<lparr>pid = d_id d, name = n, age = p_age (d_fields d),
                       favoriteFoods = p_favoriteFoods (d_fields d)\<rparr>)"

text \<open>Modelled from the spec: a batch is valid when each of its documents is.\<close>

fun validate_all :: "draft list \<Rightarrow> error + person list" where
  "validate_all [] = Inr []"
| "validate_all (d # ds) =
     (case validate d of
        Inl e \<Rightarrow> Inl e
      | Inr p \<Rightarrow> (case validate_all ds of Inl e \<Rightarrow> Inl e | Inr ps \<Rightarrow> Inr (p # ps)))"

text \<open>Modelled from the spec: an insert creates the records or fails as a whole
  ("all-or-nothing"); identifiers are unique in the collection, so a record whose
  identifier is taken is refused.\<close>

fun insert_all :: "person list \<Rightarrow> person list \<Rightarrow> error + person list" where
  "insert_all [] coll = Inr coll"
| "insert_all (p # ps) coll =
     (if pid p \<in> set (map pid coll) then Inl (DuplicateKey (pid p))
      else insert_all ps (coll @ [p]))"

definition serve_insert :: "draft list \<Rightarrow> (person list \<Rightarrow> val) \<Rightarrow> world \<Rightarrow> reply \<times> world" where
  "serve_insert ds result w =
     (case validate_all ds of
        Inl e \<Rightarrow> ((Some e, Undefined), w)
      | Inr ps \<Rightarrow>
          (case insert_all ps (people w) of
             Inl e \<Rightarrow> ((Some e, Undefined), w)
           | Inr coll \<Rightarrow> ((None, result ps), w\<lparr>people := coll\<rparr>)))"

text \<open>Modelled from the spec: persisting a loaded record replaces the stored record of
  the same identifier by the whole document; a record that is no longer there is a
  "not-found-on-mutate" error.\<close>

fun replace_doc :: "person \<Rightarrow> person list \<Rightarrow> person list option" where
  "replace_doc p [] = None"
| "replace_doc p (q # qs) =
     (if pid q = pid p then Some (p # qs)
      else (case replace_doc p qs of None \<Rightarrow> None | Some qs' \<Rightarrow> Some (q # qs')))"

definition serve_update :: "person \<Rightarrow> world \<Rightarrow> reply \<times> world" where
  "serve_update p w =
     (case replace_doc p (people w) of
        None \<Rightarrow> ((Some (DocumentNotFound (pid p)), Undefined), w)
      | Some coll \<Rightarrow> ((None, Doc p), w\<lparr>people := coll\<rparr>))"

text \<open>Modelled from the spec: find-one and find-by-identifier answer with the first
  matching record or with the absent-result marker \<open>Null\<close>.\<close>

definition found :: "person option \<Rightarrow> val" where
  "found r = (case r of None \<Rightarrow> Null | Some p \<Rightarrow> Doc p)"

definition serve_findOne :: "conditions \<Rightarrow> world \<Rightarrow> reply \<times> world" where
  "serve_findOne c w = ((None, found (find (matches c) (people w))), w)"

definition serve_findById :: "oid \<Rightarrow> world \<Rightarrow> reply \<times> world" where
  "serve_findById i w = ((None, found (find (\<lambda>p. pid p = i) (people w))), w)"

text \<open>Modelled from the spec: delete-by-identifier removes one record and answers with
  the removed record as it was.\<close>

fun remove_first :: "oid \<Rightarrow> person list \<Rightarrow> person list" where
  "remove_first i [] = []"
| "remove_first i (q # qs) = (if pid q = i then qs else q # remove_first i qs)"

definition serve_findByIdAndRemove :: "oid \<Rightarrow> world \<Rightarrow> reply \<times> world" where
  "serve_findByIdAndRemove i w =
     ((None, found (find (\<lambda>p. pid p = i) (people w))),
      w\<lparr>people := remove_first i (people w)\<rparr>)"

text \<open>Modelled from the spec: delete-by-filter removes every match and answers with the
  removal count.\<close>

definition serve_remove :: "conditions \<Rightarrow> world \<Rightarrow> reply \<times> world" where
  "serve_remove c w =
     ((None, Summary (length (filter (matches c) (people w)))),
      w\<lparr>people := filter (\<lambda>p. \<not> matches c p) (people w)\<rparr>)"

text \<open>Modelled from the spec: execution of a query, "filter \<rightarrow> sort \<rightarrow> limit \<rightarrow> project".
  A limit of zero is no limit. A projection that only gives zeros hides those fields;
  one that names fields to show hides the others, the identifier apart.\<close>

fun sort_asc :: "sort_field \<Rightarrow> person list \<Rightarrow> person list" where
  "sort_asc By_id ps = sort_key pid ps"
| "sort_asc By_name ps = sort_key name ps"
| "sort_asc By_age ps = sort_key age ps"

fun sort_docs :: "(sort_field \<times> direction) option \<Rightarrow> person list \<Rightarrow> person list" where
  "sort_docs None ps = ps"
| "sort_docs (Some (k, Asc)) ps = sort_asc k ps"
| "sort_docs (Some (k, Desc)) ps = rev (sort_asc k ps)"

fun limit_docs :: "nat option \<Rightarrow> person list \<Rightarrow> person list" where
  "limit_docs None ps = ps"
| "limit_docs (Some n) ps = (if n = 0 then ps else take n ps)"

definition shown :: "(field \<times> nat) list \<Rightarrow> field \<Rightarrow> bool" where
  "shown sel f =
     (let incl = map fst (filter (\<lambda>(g, v). v \<noteq> 0) sel);
          excl = map fst (filter (\<lambda>(g, v). v = 0) sel)
      in if incl = [] then f \<notin> set excl
         else f \<in> set incl \<or> (f = F_id \<and> f \<notin> set excl))"

definition project :: "(field \<times> nat) list \<Rightarrow> person \<Rightarrow> person_view" where
  "project sel p =
     \<lparr>v_id = (if shown sel F_id then Some (pid p) else None),
      v_name = (if shown sel F_name then Some (name p) else None),
      v_age = (if shown sel F_age then age p else None),
      v_favoriteFoods = (if shown sel F_favoriteFoods then Some (favoriteFoods p) else None)\<rparr>"

definition run_query :: "query \<Rightarrow> person list \<Rightarrow> person_view list" where
  "run_query q coll =
     map (project (q_select q))
       (limit_docs (q_limit q) (sort_docs (q_sort q) (filter (matches (q_conditions q)) coll)))"

definition serve_find :: "query \<Rightarrow> world \<Rightarrow> reply \<times> world" where
  "serve_find q w = ((None, Views (run_query q (people w))), w)"

section \<open>The client interface the source calls\<close>

text \<open>Modelled from the spec: \<^verbatim>\<open>new Person(fields)\<close> builds an unsaved document and
  assigns it a fresh identifier; nothing is sent to the store.\<close>

definition new_Person :: "payload \<Rightarrow> world \<Rightarrow> draft \<times> world" where
  "new_Person props w = (\<lparr>d_id = next_oid w, d_fields = props\<rparr>, w\<lparr>next_oid := Suc (next_oid w)\<rparr>)"

text \<open>Modelled from the spec: one new document per payload of a batch, in order.\<close>

fun new_People :: "payload list \<Rightarrow> world \<Rightarrow> draft list \<times> world" where
  "new_People [] w = ([], w)"
| "new_People (f # fs) w =
     (let (d, w1) = new_Person f w; (ds, w2) = new_People fs w1 in (d # ds, w2))"

text \<open>Modelled from the spec: \<^verbatim>\<open>save\<close> on a new document is a single-record insert
  that answers with the created record.\<close>

definition draft_save :: "draft \<Rightarrow> callback \<Rightarrow> world \<Rightarrow> world" where
  "draft_save d k =
     store_call (ReqInsert [d]) (serve_insert [d] (\<lambda>ps. case ps of [p] \<Rightarrow> Doc p | _ \<Rightarrow> Docs ps)) k"

text \<open>Modelled from the spec: \<^verbatim>\<open>save\<close> on a loaded document persists the whole
  record and answers with the updated record.\<close>

definition doc_save :: "person \<Rightarrow> callback \<Rightarrow> world \<Rightarrow> world" where
  "doc_save p k = store_call (ReqUpdate p) (serve_update p) k"

text \<open>Modelled from the spec: \<^verbatim>\<open>Person.create(array, callback)\<close>, the multi-record
  insert.\<close>

definition Person_create :: "payload list \<Rightarrow> callback \<Rightarrow> world \<Rightarrow> world" where
  "Person_create fs k w =
     (let (ds, w1) = new_People fs w in store_call (ReqInsert ds) (serve_insert ds Docs) k w1)"

text \<open>Modelled from the spec: the explicit execute trigger of a pending query.\<close>

definition query_exec :: "query \<Rightarrow> callback \<Rightarrow> world \<Rightarrow> world" where
  "query_exec q k = store_call (ReqFind q) (serve_find q) k"

text \<open>Modelled from the spec: \<^verbatim>\<open>Person.find(conditions, callback)\<close> builds a pending
  query. Given a callback it executes the query at once (comment of lines 191-196);
  given none it only returns the pending query, to be executed later.\<close>

definition Person_find :: "conditions \<Rightarrow> callback option \<Rightarrow> world \<Rightarrow> query \<times> world" where
  "Person_find c cb w =
     (let q = \<lparr>q_conditions = c, q_sort = None, q_limit = None, q_select = []\<rparr>
      in case cb of None \<Rightarrow> (q, w) | Some k \<Rightarrow> (q, query_exec q k w))"

text \<open>Modelled from the spec: the query helpers accumulate a clause on the pending
  query; they do not take the world.\<close>

definition query_sort :: "sort_field \<times> direction \<Rightarrow> query \<Rightarrow> query" where
  "query_sort s q = q\<lparr>q_sort := Some s\<rparr>"

definition query_limit :: "nat \<Rightarrow> query \<Rightarrow> query" where
  "query_limit n q = q\<lparr>q_limit := Some n\<rparr>"

definition query_select :: "(field \<times> nat) list \<Rightarrow> query \<Rightarrow> query" where
  "query_select sel q = q\<lparr>q_select := sel\<rparr>"

text \<open>Modelled from the spec: find-one, find-by-identifier, delete-by-identifier and
  delete-by-filter, each one contact with the store.\<close>

definition Person_findOne :: "conditions \<Rightarrow> callback \<Rightarrow> world \<Rightarrow> world" where
  "Person_findOne c k = store_call (ReqFindOne c) (serve_findOne c) k"

definition Person_findById :: "oid \<Rightarrow> callback \<Rightarrow> world \<Rightarrow> world" where
  "Person_findById i k = store_call (ReqFindById i) (serve_findById i) k"

definition Person_findByIdAndRemove :: "oid \<Rightarrow> callback \<Rightarrow> world \<Rightarrow> world" where
  "Person_findByIdAndRemove i k = store_call (ReqFindByIdAndRemove i) (serve_findByIdAndRemove i) k"

definition Person_remove :: "conditions \<Rightarrow> callback \<Rightarrow> world \<Rightarrow> world" where
  "Person_remove c k = store_call (ReqRemove c) (serve_remove c) k"

section \<open>The ten operations of myApp.js\<close>

text \<open>
  Each operation takes the completion callback \<^verbatim>\<open>done\<close>; its invocations are recorded
  in the trace by \<open>done_cb\<close>. The callbacks handed to the store are written as the source
  writes them: \<^verbatim>\<open>if (err) return console.error(err); done(null, data);\<close>.
\<close>

definition createAndSavePerson :: "world \<Rightarrow> world" where
  "createAndSavePerson w =
     (let (john, w1) = new_Person \<lparr>p_name = Some ''John G'', p_age = Some 30,
                                   p_favoriteFoods = [''pasta'', ''fries'', ''burgers'']\<rparr> w
      in draft_save john (\<lambda>(err, data).
           case err of Some e \<Rightarrow> console_error e
           | None \<Rightarrow> done_cb [Null, data]) w1)"

definition arrayOfPeople :: "payload list" where
  "arrayOfPeople =
     [\<lparr>p_name = Some ''jimmy'', p_age = Some 30, p_favoriteFoods = [''burgers'']\<rparr>,
      \<lparr>p_name = Some ''john'', p_age = Some 24, p_favoriteFoods = [''fries'']\<rparr>,
      \<lparr>p_name = Some ''jay'', p_age = Some 28, p_favoriteFoods = [''avocado eww'']\<rparr>]"

text \<open>The parameter of lines 60-68 has the name of the sample batch above; here it is
  \<open>people_array\<close>.\<close>

definition createManyPeople :: "payload list \<Rightarrow> world \<Rightarrow> world" where
  "createManyPeople people_array =
     Person_create people_array (\<lambda>(err, data).
       case err of Some e \<Rightarrow> console_error e
       | None \<Rightarrow> done_cb [Null, data])"

definition findPeopleByName :: "string \<Rightarrow> world \<Rightarrow> world" where
  "findPeopleByName personName w =
     snd (Person_find (NameIs personName) (Some (\<lambda>(err, data).
       case err of Some e \<Rightarrow> console_error e
       | None \<Rightarrow> done_cb [Null, data])) w)"

definition findOneByFood :: "string \<Rightarrow> world \<Rightarrow> world" where
  "findOneByFood food =
     Person_findOne (FavoriteFoodsHas food) (\<lambda>(err, data).
       case err of Some e \<Rightarrow> console_error e
       | None \<Rightarrow> done_cb [Null, data])"

definition findPersonById :: "oid \<Rightarrow> world \<Rightarrow> world" where
  "findPersonById personId =
     Person_findById personId (\<lambda>(err, data).
       case err of Some e \<Rightarrow> console_error e
       | None \<Rightarrow> done_cb [Null, data])"

text \<open>
  Lines 125-135. After the error check the callback evaluates
  \<^verbatim>\<open>data.favoriteFoods.push(foodToAdd)\<close> with no test of \<^verbatim>\<open>data\<close>: on anything
  that is not a document (the absent-result marker \<^verbatim>\<open>null\<close> first of all) the
  property access throws a TypeError, recorded here with the name of the property.
\<close>

definition findEditThenSave :: "oid \<Rightarrow> world \<Rightarrow> world" where
  "findEditThenSave personId =
     (let foodToAdd = ''hamburger'' in
      Person_findById personId (\<lambda>(err, data).
        case err of Some e \<Rightarrow> console_error e
        | None \<Rightarrow>
            (case data of
               Doc d \<Rightarrow>
                 doc_save (d\<lparr>favoriteFoods := favoriteFoods d @ [foodToAdd]\<rparr>)
                   (\<lambda>(err, updatedData).
                      case err of Some e \<Rightarrow> console_error e
                      | None \<Rightarrow> done_cb [Null, updatedData])
             | _ \<Rightarrow> throw (TypeError ''favoriteFoods''))))"

text \<open>Lines 146-158: the same shape, with \<^verbatim>\<open>data.age = ageToSet\<close>.\<close>

definition findAndUpdate :: "string \<Rightarrow> world \<Rightarrow> world" where
  "findAndUpdate personName =
     (let ageToSet = 20 in
      Person_findOne (NameIs personName) (\<lambda>(err, data).
        case err of Some e \<Rightarrow> console_error e
        | None \<Rightarrow>
            (case data of
               Doc d \<Rightarrow>
                 doc_save (d\<lparr>age := Some ageToSet\<rparr>)
                   (\<lambda>(err, updatedData).
                      case err of Some e \<Rightarrow> console_error e
                      | None \<Rightarrow> done_cb [Null, updatedData])
             | _ \<Rightarrow> throw (TypeError ''age''))))"

definition removeById :: "oid \<Rightarrow> world \<Rightarrow> world" where
  "removeById personId =
     Person_findByIdAndRemove personId (\<lambda>(err, data).
       case err of Some e \<Rightarrow> console_error e
       | None \<Rightarrow> done_cb [Null, data])"

definition removeManyPeople :: "world \<Rightarrow> world" where
  "removeManyPeople =
     (let nameToRemove = ''Mary'' in
      Person_remove (NameIs nameToRemove) (\<lambda>(err, data).
        case err of Some e \<Rightarrow> console_error e
        | None \<Rightarrow> done_cb [Null, data]))"

definition queryChain :: "world \<Rightarrow> world" where
  "queryChain w =
     (let foodToSearch = ''burrito'';
          (q, w1) = Person_find (FavoriteFoodsHas foodToSearch) None w
      in query_exec (query_select [(F_age, 0)] (query_limit 2 (query_sort (By_name, Asc) q)))
           (\<lambda>(err, data).
              case err of Some e \<Rightarrow> console_error e
              | None \<Rightarrow> done_cb [Null, data]) w1)"

text \<open>The export table of lines 222-232, as the calls a client can make.\<close>

datatype operation =
    CreateAndSavePerson
  | FindPeopleByName string
  | FindOneByFood string
  | FindPersonById oid
  | FindEditThenSave oid
  | FindAndUpdate string
  | CreateManyPeople "payload list"
  | RemoveById oid
  | RemoveManyPeople
  | QueryChain

fun call :: "operation \<Rightarrow> world \<Rightarrow> world" where
  "call CreateAndSavePerson = createAndSavePerson"
| "call (FindPeopleByName n) = findPeopleByName n"
| "call (FindOneByFood f) = findOneByFood f"
| "call (FindPersonById i) = findPersonById i"
| "call (FindEditThenSave i) = findEditThenSave i"
| "call (FindAndUpdate n) = findAndUpdate n"
| "call (CreateManyPeople fs) = createManyPeople fs"
| "call (RemoveById i) = removeById i"
| "call RemoveManyPeople = removeManyPeople"
| "call QueryChain = queryChain"

section \<open>Observations on a trace\<close>

text \<open>The events that one call adds to the trace.\<close>

definition events :: "operation \<Rightarrow> world \<Rightarrow> event list" where
  "events opn w = drop (length (trace w)) (trace (call opn w))"

fun done_calls :: "event list \<Rightarrow> val list list" where
  "done_calls [] = []"
| "done_calls (Done args # evs) = args # done_calls evs"
| "done_calls (_ # evs) = done_calls evs"

fun logged :: "event list \<Rightarrow> error list" where
  "logged [] = []"
| "logged (ConsoleError e # evs) = e # logged evs"
| "logged (_ # evs) = logged evs"

fun failures :: "event list \<Rightarrow> error list" where
  "failures [] = []"
| "failures (StoreReply (Some e) _ # evs) = e # failures evs"
| "failures (_ # evs) = failures evs"

fun store_calls :: "event list \<Rightarrow> store_req list" where
  "store_calls [] = []"
| "store_calls (StoreCall r # evs) = r # store_calls evs"
| "store_calls (_ # evs) = store_calls evs"

fun uncaught :: "event list \<Rightarrow> exn list" where
  "uncaught [] = []"
| "uncaught (Uncaught x # evs) = x # uncaught evs"
| "uncaught (_ # evs) = uncaught evs"

text \<open>What the environment has in store for the next store call.\<close>

definition next_fault :: "world \<Rightarrow> error option" where
  "next_fault w = (case faults w of [] \<Rightarrow> None | f # _ \<Rightarrow> f)"

text \<open>Sample worlds: four stored records, the store reachable or down.\<close>

definition sample_people :: "person list" where
  "sample_people =
     [\<lparr>pid = 2, name = ''zed'', age = Some 5, favoriteFoods = [''burrito'']\<rparr>,
      \<lparr>pid = 3, name = ''amy'', age = None, favoriteFoods = [''burrito'', ''taco'']\<rparr>,
      \<lparr>pid = 4, name = ''bob'', age = Some 7, favoriteFoods = [''burrito'']\<rparr>,
      \<lparr>pid = 5, name = ''amy'', age = Some 9, favoriteFoods = []\<rparr>]"

definition sample_world :: world where
  "sample_world = \<lparr>people = sample_people, next_oid = 6, faults = [], trace = []\<rparr>"

definition down :: error where
  "down = StoreError ''connection lost''"

definition down_world :: world where
  "down_world = \<lparr>people = sample_people, next_oid = 6, faults = [Some down], trace = []\<rparr>"

text \<open>
  The traces a call can leave: a chain of answered store calls that ends, after the last
  answer, with the error logged, with \<^verbatim>\<open>done(null, data)\<close>, or with an uncaught
  exception.
\<close>

inductive shape :: "event list \<Rightarrow> bool" where
  failed: "shape [StoreCall r, StoreReply (Some e) v, ConsoleError e]"
| delivered: "shape [StoreCall r, StoreReply None v, Done [Null, v]]"
| thrown: "shape [StoreCall r, StoreReply None v, Uncaught x]"
| chained: "shape evs \<Longrightarrow> shape (StoreCall r # StoreReply None v # evs)"

text \<open>The world once a request is sent and the environment's entry for it is consumed.\<close>

definition answered :: "store_req \<Rightarrow> world \<Rightarrow> world" where
  "answered req w = (emit (StoreCall req) w)\<lparr>faults := tl (faults w)\<rparr>"

text \<open>The callback the source hands to the store in every single-step operation and
  to the final \<^verbatim>\<open>save\<close> of the two load-modify-save operations.\<close>

definition reply_cb :: callback where
  "reply_cb = (\<lambda>(err, data). case err of Some e \<Rightarrow> console_error e | None \<Rightarrow> done_cb [Null, data])"

section \<open>Properties\<close>

subsection \<open>Unfolding the operations\<close>

lemma new_People_result:
  "new_People fs w = (ds, w') \<Longrightarrow>
     w' = w\<lparr>next_oid := next_oid w + length fs\<rparr> \<and>
     map d_id ds = [next_oid w ..< next_oid w + length fs] \<and>
     map d_fields ds = fs"
proof (induction fs arbitrary: w ds w')
  case Nil
  then show ?case by simp
next
  case (Cons f fs)
  obtain ds1 w1 where r: "new_People fs (w\<lparr>next_oid := Suc (next_oid w)\<rparr>) = (ds1, w1)"
    by (cases "new_People fs (w\<lparr>next_oid := Suc (next_oid w)\<rparr>)")
  from Cons.IH [OF r] Cons.prems r show ?case
    by (auto simp: new_Person_def upt_conv_Cons simp del: upt_Suc)
qed

lemmas client_defs =
  draft_save_def doc_save_def Person_create_def query_exec_def Person_find_def
  Person_findOne_def Person_findById_def Person_findByIdAndRemove_def Person_remove_def
  query_sort_def query_limit_def query_select_def

lemmas serve_defs =
  serve_insert_def serve_update_def serve_findOne_def serve_findById_def
  serve_findByIdAndRemove_def serve_remove_def serve_find_def

lemmas effect_defs = emit_def console_error_def done_cb_def throw_def

lemmas unfold_ops =
  events_def client_defs store_call_def serve_defs effect_defs Let_def found_def

subsection \<open>The shape of every trace\<close>

lemma shape_createAndSavePerson: "shape (events CreateAndSavePerson w)"
  by (auto simp: createAndSavePerson_def new_Person_def unfold_ops
      split: list.splits option.splits sum.splits prod.splits intro: shape.intros)

lemma shape_findPeopleByName: "shape (events (FindPeopleByName n) w)"
  by (auto simp: findPeopleByName_def unfold_ops
      split: list.splits option.splits intro: shape.intros)

lemma shape_findOneByFood: "shape (events (FindOneByFood f) w)"
  by (auto simp: findOneByFood_def unfold_ops
      split: list.splits option.splits intro: shape.intros)

lemma shape_findPersonById: "shape (events (FindPersonById i) w)"
  by (auto simp: findPersonById_def unfold_ops
      split: list.splits option.splits intro: shape.intros)

lemma shape_findEditThenSave: "shape (events (FindEditThenSave i) w)"
  by (auto simp: findEditThenSave_def unfold_ops
      split: list.splits option.splits intro: shape.intros)

lemma shape_findAndUpdate: "shape (events (FindAndUpdate n) w)"
  by (auto simp: findAndUpdate_def unfold_ops
      split: list.splits option.splits intro: shape.intros)

lemma shape_createManyPeople: "shape (events (CreateManyPeople fs) w)"
proof (cases "new_People fs w")
  case (Pair ds w1)
  from new_People_result [OF Pair] Pair show ?thesis
    by (auto simp: createManyPeople_def unfold_ops
        split: list.splits option.splits sum.splits intro: shape.intros)
qed

lemma shape_removeById: "shape (events (RemoveById i) w)"
  by (auto simp: removeById_def unfold_ops
      split: list.splits option.splits intro: shape.intros)

lemma shape_removeManyPeople: "shape (events RemoveManyPeople w)"
  by (auto simp: removeManyPeople_def unfold_ops
      split: list.splits option.splits intro: shape.intros)

lemma shape_queryChain: "shape (events QueryChain w)"
  by (auto simp: queryChain_def unfold_ops
      split: list.splits option.splits intro: shape.intros)

lemma shape_events: "shape (events opn w)"
proof (cases opn)
  case CreateAndSavePerson
  then show ?thesis using shape_createAndSavePerson by simp
next
  case (FindPeopleByName n)
  then show ?thesis using shape_findPeopleByName by simp
next
  case (FindOneByFood f)
  then show ?thesis using shape_findOneByFood by simp
next
  case (FindPersonById i)
  then show ?thesis using shape_findPersonById by simp
next
  case (FindEditThenSave i)
  then show ?thesis using shape_findEditThenSave by simp
next
  case (FindAndUpdate n)
  then show ?thesis using shape_findAndUpdate by simp
next
  case (CreateManyPeople fs)
  then show ?thesis using shape_createManyPeople by simp
next
  case (RemoveById i)
  then show ?thesis using shape_removeById by simp
next
  case RemoveManyPeople
  then show ?thesis using shape_removeManyPeople by simp
next
  case QueryChain
  then show ?thesis using shape_queryChain by simp
qed

lemma shape_logged: "shape evs \<Longrightarrow> logged evs = failures evs"
  by (induction rule: shape.induct) simp_all

lemma shape_failure_silent: "shape evs \<Longrightarrow> failures evs \<noteq> [] \<Longrightarrow> done_calls evs = []"
  by (induction rule: shape.induct) simp_all

lemma shape_done_args:
  "shape evs \<Longrightarrow> args \<in> set (done_calls evs) \<Longrightarrow> \<exists>v. args = [Null, v] \<and> StoreReply None v \<in> set evs"
  by (induction rule: shape.induct) auto

lemma shape_success:
  "shape evs \<Longrightarrow> failures evs = [] \<Longrightarrow> uncaught evs = [] \<Longrightarrow>
     \<exists>pre v. evs = pre @ [StoreReply None v, Done [Null, v]] \<and> done_calls evs = [[Null, v]]"
proof (induction rule: shape.induct)
  case (delivered r v)
  have "[StoreCall r, StoreReply None v, Done [Null, v]] = [StoreCall r] @ [StoreReply None v, Done [Null, v]]"
    by simp
  then show ?case by fastforce
next
  case (chained evs r v)
  then obtain pre u where "evs = pre @ [StoreReply None u, Done [Null, u]]" "done_calls evs = [[Null, u]]"
    by auto
  then have "StoreCall r # StoreReply None v # evs = (StoreCall r # StoreReply None v # pre) @ [StoreReply None u, Done [Null, u]]
      \<and> done_calls (StoreCall r # StoreReply None v # evs) = [[Null, u]]"
    by simp
  then show ?case by blast
qed simp_all

lemma shape_at_most_once: "shape evs \<Longrightarrow> length (done_calls evs) \<le> 1"
  by (induction rule: shape.induct) simp_all

lemma shape_done_last:
  "shape evs \<Longrightarrow> done_calls evs \<noteq> [] \<Longrightarrow>
     \<exists>pre v. evs = pre @ [StoreReply None v, Done [Null, v]] \<and> done_calls pre = []"
proof (induction rule: shape.induct)
  case (delivered r v)
  have "[StoreCall r, StoreReply None v, Done [Null, v]] = [StoreCall r] @ [StoreReply None v, Done [Null, v]]
     \<and> done_calls [StoreCall r] = []"
    by simp
  then show ?case by blast
next
  case (chained evs r v)
  then obtain pre u where "evs = pre @ [StoreReply None u, Done [Null, u]]" "done_calls pre = []"
    by auto
  then have "StoreCall r # StoreReply None v # evs = (StoreCall r # StoreReply None v # pre) @ [StoreReply None u, Done [Null, u]]
      \<and> done_calls (StoreCall r # StoreReply None v # pre) = []"
    by simp
  then show ?case by blast
qed simp_all

subsection \<open>Error policy (C1)\<close>

text \<open>
  Claim C1, as amended. For every operation and every world: each failure the store
  reports is logged by \<^verbatim>\<open>console.error\<close> and nothing else is; when the store reports
  a failure the completion callback is not invoked at all, so the error is not handed to
  it; every invocation of the callback has the arguments \<^verbatim>\<open>(null, data)\<close> with the
  data of a successful store answer; and when the store reports no failure and no
  exception escapes, the callback is invoked with \<^verbatim>\<open>(null, data)\<close> for the data of the
  last answer.
\<close>

theorem store_failure_logged_callback_silent:
  "logged (events opn w) = failures (events opn w) \<and>
   (failures (events opn w) \<noteq> [] \<longrightarrow> done_calls (events opn w) = []) \<and>
   (\<forall>args \<in> set (done_calls (events opn w)).
      \<exists>v. args = [Null, v] \<and> StoreReply None v \<in> set (events opn w)) \<and>
   (failures (events opn w) = [] \<and> uncaught (events opn w) = [] \<longrightarrow>
      (\<exists>pre v. events opn w = pre @ [StoreReply None v, Done [Null, v]] \<and>
               done_calls (events opn w) = [[Null, v]]))"
  using shape_events [of opn w]
  by (auto simp: shape_logged shape_failure_silent dest: shape_done_args shape_success)

lemma events_createAndSavePerson_down:
  "events CreateAndSavePerson down_world =
     [StoreCall (ReqInsert [\<lparr>d_id = 6, d_fields = \<lparr>p_name = Some ''John G'', p_age = Some 30,
          p_favoriteFoods = [''pasta'', ''fries'', ''burgers'']\<rparr>\<rparr>]),
      StoreReply (Some down) Undefined, ConsoleError down]"
  by (simp add: down_world_def createAndSavePerson_def new_Person_def unfold_ops)

text \<open>
  Claim C1 as stated fails: with the store down, \<^verbatim>\<open>createAndSavePerson\<close> logs the
  error and never invokes the callback, so the callback does not receive the error as its
  sole argument.
\<close>

theorem createAndSavePerson_failure_counterexample:
  "failures (events CreateAndSavePerson down_world) = [down] \<and>
   logged (events CreateAndSavePerson down_world) = [down] \<and>
   done_calls (events CreateAndSavePerson down_world) = [] \<and>
   done_calls (events CreateAndSavePerson down_world) \<noteq> [[Err down]]"
  by (simp add: events_createAndSavePerson_down)

lemma events_findPeopleByName_sample:
  "events (FindPeopleByName ''amy'') sample_world =
     [StoreCall (ReqFind \<lparr>q_conditions = NameIs ''amy'', q_sort = None, q_limit = None, q_select = []\<rparr>),
      StoreReply None (Views
        [\<lparr>v_id = Some 3, v_name = Some ''amy'', v_age = None, v_favoriteFoods = Some [''burrito'', ''taco'']\<rparr>,
         \<lparr>v_id = Some 5, v_name = Some ''amy'', v_age = Some 9, v_favoriteFoods = Some []\<rparr>]),
      Done [Null, Views
        [\<lparr>v_id = Some 3, v_name = Some ''amy'', v_age = None, v_favoriteFoods = Some [''burrito'', ''taco'']\<rparr>,
         \<lparr>v_id = Some 5, v_name = Some ''amy'', v_age = Some 9, v_favoriteFoods = Some []\<rparr>]]]"
  by (simp add: sample_world_def sample_people_def findPeopleByName_def unfold_ops
        run_query_def project_def shown_def)

text \<open>Claim C1, witness: a failing insert and a successful find-by-name.\<close>

theorem store_failure_logged_callback_silent_witness:
  "failures (events CreateAndSavePerson down_world) = [down] \<and>
   logged (events CreateAndSavePerson down_world) = [down] \<and>
   done_calls (events CreateAndSavePerson down_world) = [] \<and>
   failures (events (FindPeopleByName ''amy'') sample_world) = [] \<and>
   uncaught (events (FindPeopleByName ''amy'') sample_world) = [] \<and>
   done_calls (events (FindPeopleByName ''amy'') sample_world) =
     [[Null, Views
        [\<lparr>v_id = Some 3, v_name = Some ''amy'', v_age = None, v_favoriteFoods = Some [''burrito'', ''taco'']\<rparr>,
         \<lparr>v_id = Some 5, v_name = Some ''amy'', v_age = Some 9, v_favoriteFoods = Some []\<rparr>]]]"
  using store_failure_logged_callback_silent [of CreateAndSavePerson down_world]
    store_failure_logged_callback_silent [of "FindPeopleByName ''amy''" sample_world]
  by (simp add: events_createAndSavePerson_down events_findPeopleByName_sample)

subsection \<open>Invocations of the completion callback (C2)\<close>

text \<open>
  Claim C2, as amended. For every operation and every world the completion callback is
  invoked at most once: zero times when the store reports a failure, exactly once when the
  store reports none and no exception escapes; and an invocation is the last event of the
  call, directly after the store's answer.
\<close>

theorem callback_at_most_once:
  "length (done_calls (events opn w)) \<le> 1 \<and>
   (failures (events opn w) \<noteq> [] \<longrightarrow> length (done_calls (events opn w)) = 0) \<and>
   (failures (events opn w) = [] \<and> uncaught (events opn w) = [] \<longrightarrow>
      length (done_calls (events opn w)) = 1) \<and>
   (done_calls (events opn w) \<noteq> [] \<longrightarrow>
      (\<exists>pre v. events opn w = pre @ [StoreReply None v, Done [Null, v]] \<and> done_calls pre = []))"
proof -
  have s: "shape (events opn w)" by (rule shape_events)
  have a: "length (done_calls (events opn w)) \<le> 1"
    using s by (rule shape_at_most_once)
  have b: "failures (events opn w) \<noteq> [] \<longrightarrow> length (done_calls (events opn w)) = 0"
    using s by (simp add: shape_failure_silent)
  have c: "failures (events opn w) = [] \<and> uncaught (events opn w) = [] \<longrightarrow>
      length (done_calls (events opn w)) = 1"
    using shape_success [OF s] by auto
  have d: "done_calls (events opn w) \<noteq> [] \<longrightarrow>
      (\<exists>pre v. events opn w = pre @ [StoreReply None v, Done [Null, v]] \<and> done_calls pre = [])"
    using shape_done_last [OF s] by blast
  from a b c d show ?thesis by blast
qed

lemma events_createManyPeople_down:
  "events (CreateManyPeople arrayOfPeople) down_world =
     [StoreCall (ReqInsert
        [\<lparr>d_id = 6, d_fields = \<lparr>p_name = Some ''jimmy'', p_age = Some 30, p_favoriteFoods = [''burgers'']\<rparr>\<rparr>,
         \<lparr>d_id = 7, d_fields = \<lparr>p_name = Some ''john'', p_age = Some 24, p_favoriteFoods = [''fries'']\<rparr>\<rparr>,
         \<lparr>d_id = 8, d_fields = \<lparr>p_name = Some ''jay'', p_age = Some 28, p_favoriteFoods = [''avocado eww'']\<rparr>\<rparr>]),
      StoreReply (Some down) Undefined, ConsoleError down]"
  by (simp add: down_world_def arrayOfPeople_def createManyPeople_def new_Person_def unfold_ops)

text \<open>
  Claim C2 as stated fails: with the store down, \<^verbatim>\<open>createManyPeople\<close> invokes the
  callback zero times.
\<close>

theorem createManyPeople_failure_counterexample:
  "failures (events (CreateManyPeople arrayOfPeople) down_world) = [down] \<and>
   length (done_calls (events (CreateManyPeople arrayOfPeople) down_world)) = 0"
  by (simp add: events_createManyPeople_down)

lemma events_removeById_sample:
  "events (RemoveById 4) sample_world =
     [StoreCall (ReqFindByIdAndRemove 4),
      StoreReply None (Doc \<lparr>pid = 4, name = ''bob'', age = Some 7, favoriteFoods = [''burrito'']\<rparr>),
      Done [Null, Doc \<lparr>pid = 4, name = ''bob'', age = Some 7, favoriteFoods = [''burrito'']\<rparr>]]"
  by (simp add: sample_world_def sample_people_def removeById_def unfold_ops)

lemma events_removeById_down:
  "events (RemoveById 4) down_world =
     [StoreCall (ReqFindByIdAndRemove 4), StoreReply (Some down) Undefined, ConsoleError down]"
  by (simp add: down_world_def removeById_def unfold_ops)

text \<open>Claim C2, witness: a delete-by-identifier with the store down and with it up.\<close>

theorem callback_at_most_once_witness:
  "failures (events (RemoveById 4) down_world) = [down] \<and>
   length (done_calls (events (RemoveById 4) down_world)) = 0 \<and>
   failures (events (RemoveById 4) sample_world) = [] \<and>
   uncaught (events (RemoveById 4) sample_world) = [] \<and>
   length (done_calls (events (RemoveById 4) sample_world)) = 1 \<and>
   last (events (RemoveById 4) sample_world) =
     Done [Null, Doc \<lparr>pid = 4, name = ''bob'', age = Some 7, favoriteFoods = [''burrito'']\<rparr>]"
  using callback_at_most_once [of "RemoveById 4" down_world]
    callback_at_most_once [of "RemoveById 4" sample_world]
  by (simp add: events_removeById_sample events_removeById_down)

subsection \<open>A lookup that finds nothing (C10)\<close>

text \<open>
  Claim C10. When the lookup of \<^verbatim>\<open>findEditThenSave\<close> or of \<^verbatim>\<open>findAndUpdate\<close> goes
  through and finds no record, the store answers \<^verbatim>\<open>(null, null)\<close> and the callback
  dereferences the absent-result marker: the call ends with an uncaught TypeError, nothing
  is logged, nothing is saved and the completion callback is not invoked.
\<close>

theorem absent_record_dereferenced:
  assumes "next_fault w = None"
  shows "(find (\<lambda>p. pid p = i) (people w) = None \<longrightarrow>
            events (FindEditThenSave i) w =
              [StoreCall (ReqFindById i), StoreReply None Null, Uncaught (TypeError ''favoriteFoods'')] \<and>
            done_calls (events (FindEditThenSave i) w) = [] \<and>
            logged (events (FindEditThenSave i) w) = [] \<and>
            people (call (FindEditThenSave i) w) = people w) \<and>
         (find (matches (NameIs n)) (people w) = None \<longrightarrow>
            events (FindAndUpdate n) w =
              [StoreCall (ReqFindOne (NameIs n)), StoreReply None Null, Uncaught (TypeError ''age'')] \<and>
            done_calls (events (FindAndUpdate n) w) = [] \<and>
            logged (events (FindAndUpdate n) w) = [] \<and>
            people (call (FindAndUpdate n) w) = people w)"
proof -
  have e: "find (\<lambda>p. pid p = i) (people w) = None \<Longrightarrow>
     events (FindEditThenSave i) w =
       [StoreCall (ReqFindById i), StoreReply None Null, Uncaught (TypeError ''favoriteFoods'')] \<and>
     people (call (FindEditThenSave i) w) = people w"
    using assms
    by (auto simp: next_fault_def findEditThenSave_def unfold_ops split: list.splits)
  have u: "find (matches (NameIs n)) (people w) = None \<Longrightarrow>
     events (FindAndUpdate n) w =
       [StoreCall (ReqFindOne (NameIs n)), StoreReply None Null, Uncaught (TypeError ''age'')] \<and>
     people (call (FindAndUpdate n) w) = people w"
    using assms
    by (auto simp: next_fault_def findAndUpdate_def unfold_ops split: list.splits)
  from e u show ?thesis by auto
qed

text \<open>Claim C10, witness: an identifier and a name that the sample store does not hold.\<close>

theorem absent_record_dereferenced_witness:
  "next_fault sample_world = None \<and>
   find (\<lambda>p. pid p = 7) (people sample_world) = None \<and>
   events (FindEditThenSave 7) sample_world =
     [StoreCall (ReqFindById 7), StoreReply None Null, Uncaught (TypeError ''favoriteFoods'')] \<and>
   done_calls (events (FindEditThenSave 7) sample_world) = [] \<and>
   find (matches (NameIs ''nobody'')) (people sample_world) = None \<and>
   events (FindAndUpdate ''nobody'') sample_world =
     [StoreCall (ReqFindOne (NameIs ''nobody'')), StoreReply None Null, Uncaught (TypeError ''age'')] \<and>
   done_calls (events (FindAndUpdate ''nobody'') sample_world) = []"
proof -
  have f: "next_fault sample_world = None"
    by (simp add: next_fault_def sample_world_def)
  have a: "find (\<lambda>p. pid p = 7) (people sample_world) = None"
    by (simp add: sample_world_def sample_people_def)
  have b: "find (matches (NameIs ''nobody'')) (people sample_world) = None"
    by (simp add: sample_world_def sample_people_def)
  from f a b absent_record_dereferenced [OF f, of 7 "''nobody''"] show ?thesis
    by simp
qed

subsection \<open>The chained query (C3, C4)\<close>

lemma shown_hide_age:
  "shown [(F_age, 0)] f = (f \<noteq> F_age)"
  by (simp add: shown_def)

lemma project_hide_age:
  "project [(F_age, 0)] p =
     \<lparr>v_id = Some (pid p), v_name = Some (name p), v_age = None,
      v_favoriteFoods = Some (favoriteFoods p)\<rparr>"
  by (simp add: project_def shown_hide_age)

lemma sorted_map_Some: "sorted (map f xs) \<Longrightarrow> sorted (map (\<lambda>x. Some (f x)) xs)"
  by (induction xs) auto

lemma run_query_chain:
  fixes coll :: "person list" and c :: conditions
  defines "vs \<equiv> run_query \<lparr>q_conditions = c, q_sort = Some (By_name, Asc), q_limit = Some 2,
                            q_select = [(F_age, 0)]\<rparr> coll"
  shows "length vs \<le> 2" and "sorted (map v_name vs)"
    and "\<forall>v \<in> set vs. v_age v = None \<and> v_name v \<noteq> None"
proof -
  let ?ps = "take 2 (sort_key name (filter (matches c) coll))"
  have vs: "vs = map (project [(F_age, 0)]) ?ps"
    by (simp add: vs_def run_query_def)
  show "length vs \<le> 2" by (simp add: vs)
  have "sorted (map name (sort_key name (filter (matches c) coll)))"
    by (rule sorted_sort_key)
  then have "sorted (take 2 (map name (sort_key name (filter (matches c) coll))))"
    by (rule sorted_wrt_take)
  then have "sorted (map name ?ps)"
    by (simp add: take_map)
  then have "sorted (map (\<lambda>p. Some (name p)) ?ps)"
    by (rule sorted_map_Some)
  then show "sorted (map v_name vs)"
    by (simp add: vs project_hide_age comp_def)
  show "\<forall>v \<in> set vs. v_age v = None \<and> v_name v \<noteq> None"
    by (auto simp: vs project_hide_age)
qed

lemma events_queryChain:
  "events QueryChain w =
     (let q = \<lparr>q_conditions = FavoriteFoodsHas ''burrito'', q_sort = Some (By_name, Asc),
                q_limit = Some 2, q_select = [(F_age, 0)]\<rparr>
      in case next_fault w of
           None \<Rightarrow> [StoreCall (ReqFind q), StoreReply None (Views (run_query q (people w))),
                     Done [Null, Views (run_query q (people w))]]
         | Some e \<Rightarrow> [StoreCall (ReqFind q), StoreReply (Some e) Undefined, ConsoleError e])"
  by (auto simp: queryChain_def unfold_ops next_fault_def split: list.splits option.splits)

text \<open>
  Claim C3. For every store state, when the store reports no failure, \<^verbatim>\<open>queryChain\<close>
  delivers one result sequence to its callback: it has at most two records, it is sorted
  ascending by name, and no record in it exposes an age (the name stays exposed).
\<close>

theorem queryChain_result_limited_sorted_projected:
  assumes "failures (events QueryChain w) = []"
  shows "\<exists>vs. done_calls (events QueryChain w) = [[Null, Views vs]] \<and>
              length vs \<le> 2 \<and> sorted (map v_name vs) \<and>
              (\<forall>v \<in> set vs. v_age v = None \<and> v_name v \<noteq> None)"
proof (cases "next_fault w")
  case None
  let ?q = "\<lparr>q_conditions = FavoriteFoodsHas ''burrito'', q_sort = Some (By_name, Asc),
              q_limit = Some 2, q_select = [(F_age, 0)]\<rparr>"
  have "done_calls (events QueryChain w) = [[Null, Views (run_query ?q (people w))]]"
    using None by (simp add: events_queryChain Let_def)
  with run_query_chain [of "FavoriteFoodsHas ''burrito''" "people w"] show ?thesis
    by blast
next
  case (Some e)
  with assms show ?thesis by (simp add: events_queryChain Let_def)
qed

lemma events_queryChain_sample:
  "events QueryChain sample_world =
    [StoreCall (ReqFind \<lparr>q_conditions = FavoriteFoodsHas ''burrito'', q_sort = Some (By_name, Asc),
                q_limit = Some 2, q_select = [(F_age, 0)]\<rparr>),
     StoreReply None (Views
       [\<lparr>v_id = Some 3, v_name = Some ''amy'', v_age = None, v_favoriteFoods = Some [''burrito'', ''taco'']\<rparr>,
        \<lparr>v_id = Some 4, v_name = Some ''bob'', v_age = None, v_favoriteFoods = Some [''burrito'']\<rparr>]),
     Done [Null, Views
       [\<lparr>v_id = Some 3, v_name = Some ''amy'', v_age = None, v_favoriteFoods = Some [''burrito'', ''taco'']\<rparr>,
        \<lparr>v_id = Some 4, v_name = Some ''bob'', v_age = None, v_favoriteFoods = Some [''burrito'']\<rparr>]]]"
  by (simp add: events_queryChain next_fault_def sample_world_def run_query_def
        sample_people_def project_hide_age)

text \<open>Claim C3, witness: the sample store holds three records that match the filter.\<close>

theorem queryChain_result_limited_sorted_projected_witness:
  "failures (events QueryChain sample_world) = [] \<and>
   done_calls (events QueryChain sample_world) =
     [[Null, Views
       [\<lparr>v_id = Some 3, v_name = Some ''amy'', v_age = None, v_favoriteFoods = Some [''burrito'', ''taco'']\<rparr>,
        \<lparr>v_id = Some 4, v_name = Some ''bob'', v_age = None, v_favoriteFoods = Some [''burrito'']\<rparr>]]] \<and>
   length (filter (matches (FavoriteFoodsHas ''burrito'')) (people sample_world)) = 3"
proof -
  have f: "failures (events QueryChain sample_world) = []"
    by (simp add: events_queryChain_sample)
  have n: "length (filter (matches (FavoriteFoodsHas ''burrito'')) (people sample_world)) = 3"
    by (simp add: sample_world_def sample_people_def)
  from f n queryChain_result_limited_sorted_projected [OF f] show ?thesis
    by (simp add: events_queryChain_sample)
qed

text \<open>
  Claim C4. A \<^verbatim>\<open>Person.find\<close> without a callback leaves the world as it is and only
  returns the pending query. The whole of \<^verbatim>\<open>queryChain\<close> makes one store call, its
  first event, and that call carries the filter, the sort order, the limit and the
  projection together: the operation is one execution of the fully assembled query.
\<close>

theorem queryChain_contacts_store_only_on_exec:
  "snd (Person_find c None w) = w \<and>
   fst (Person_find c None w) = \<lparr>q_conditions = c, q_sort = None, q_limit = None, q_select = []\<rparr> \<and>
   store_calls (events QueryChain w) =
     [ReqFind \<lparr>q_conditions = FavoriteFoodsHas ''burrito'', q_sort = Some (By_name, Asc),
               q_limit = Some 2, q_select = [(F_age, 0)]\<rparr>] \<and>
   take 1 (events QueryChain w) =
     [StoreCall (ReqFind \<lparr>q_conditions = FavoriteFoodsHas ''burrito'', q_sort = Some (By_name, Asc),
               q_limit = Some 2, q_select = [(F_age, 0)]\<rparr>)] \<and>
   call QueryChain w =
     query_exec \<lparr>q_conditions = FavoriteFoodsHas ''burrito'', q_sort = Some (By_name, Asc),
                 q_limit = Some 2, q_select = [(F_age, 0)]\<rparr>
       (\<lambda>(err, data). case err of Some e \<Rightarrow> console_error e | None \<Rightarrow> done_cb [Null, data]) w"
proof -
  have a: "snd (Person_find c None w) = w"
    by (simp add: Person_find_def)
  have b: "fst (Person_find c None w) = \<lparr>q_conditions = c, q_sort = None, q_limit = None, q_select = []\<rparr>"
    by (simp add: Person_find_def)
  have c: "store_calls (events QueryChain w) =
     [ReqFind \<lparr>q_conditions = FavoriteFoodsHas ''burrito'', q_sort = Some (By_name, Asc),
               q_limit = Some 2, q_select = [(F_age, 0)]\<rparr>]"
    by (simp add: events_queryChain Let_def split: option.splits)
  have d: "take 1 (events QueryChain w) =
     [StoreCall (ReqFind \<lparr>q_conditions = FavoriteFoodsHas ''burrito'', q_sort = Some (By_name, Asc),
               q_limit = Some 2, q_select = [(F_age, 0)]\<rparr>)]"
    by (simp add: events_queryChain Let_def split: option.splits)
  have e: "call QueryChain w =
     query_exec \<lparr>q_conditions = FavoriteFoodsHas ''burrito'', q_sort = Some (By_name, Asc),
                 q_limit = Some 2, q_select = [(F_age, 0)]\<rparr>
       (\<lambda>(err, data). case err of Some e \<Rightarrow> console_error e | None \<Rightarrow> done_cb [Null, data]) w"
    by (simp add: queryChain_def Person_find_def query_sort_def query_limit_def query_select_def)
  from a b c d e show ?thesis by blast
qed

subsection \<open>Load, modify, save (C5, C6)\<close>

lemma replace_doc_exists:
  "find (\<lambda>q. pid q = pid p') xs = Some p \<Longrightarrow> \<exists>ys. replace_doc p' xs = Some ys"
  by (induction xs) (auto split: if_splits)

lemma replace_doc_find_same:
  "replace_doc p' xs = Some ys \<Longrightarrow> find (\<lambda>q. pid q = pid p') ys = Some p'"
  by (induction xs arbitrary: ys) (auto split: if_splits option.splits)

lemma replace_doc_find_other:
  "replace_doc p' xs = Some ys \<Longrightarrow> j \<noteq> pid p' \<Longrightarrow>
     find (\<lambda>q. pid q = j) ys = find (\<lambda>q. pid q = j) xs"
  by (induction xs arbitrary: ys) (auto split: if_splits option.splits)

lemma replace_doc_ids:
  "replace_doc p' xs = Some ys \<Longrightarrow> map pid ys = map pid xs"
  by (induction xs arbitrary: ys) (auto split: if_splits option.splits)

lemma find_pid: "find (\<lambda>q. pid q = i) xs = Some p \<Longrightarrow> pid p = i"
  by (induction xs) (auto split: if_splits)

lemma store_call_fault:
  "next_fault w = Some e \<Longrightarrow>
     store_call req serve k w =
       k (Some e, Undefined) (emit (StoreReply (Some e) Undefined) (answered req w))"
  by (cases "faults w")
     (auto simp: next_fault_def store_call_def answered_def emit_def Let_def split: option.splits)

lemma store_call_served:
  "next_fault w = None \<Longrightarrow> serve (answered req w) = (r, w2) \<Longrightarrow>
     store_call req serve k w = k r (emit (StoreReply (fst r) (snd r)) w2)"
proof (cases "faults w")
  case Nil
  assume "serve (answered req w) = (r, w2)"
  moreover have "answered req w = emit (StoreCall req) w"
    using Nil by (cases w) (simp add: answered_def emit_def)
  ultimately show ?thesis using Nil
    by (simp add: store_call_def emit_def Let_def)
next
  case (Cons f fs)
  assume "next_fault w = None" "serve (answered req w) = (r, w2)"
  with Cons show ?thesis
    by (simp add: next_fault_def store_call_def answered_def emit_def Let_def)
qed

lemma answered_simps:
  "people (answered req w) = people w"
  "next_oid (answered req w) = next_oid w"
  "faults (answered req w) = tl (faults w)"
  "trace (answered req w) = trace w @ [StoreCall req]"
  by (simp_all add: answered_def emit_def)

lemma emit_simps:
  "people (emit ev w) = people w"
  "next_oid (emit ev w) = next_oid w"
  "faults (emit ev w) = faults w"
  "trace (emit ev w) = trace w @ [ev]"
  by (simp_all add: emit_def)

lemma reply_cb_simps:
  "reply_cb (Some e, v) w = console_error e w"
  "reply_cb (None, v) w = done_cb [Null, v] w"
  by (simp_all add: reply_cb_def)

lemma events_findEditThenSave_found:
  assumes f: "find (\<lambda>q. pid q = i) (people w) = Some p"
    and ok: "failures (events (FindEditThenSave i) w) = []"
  shows "\<exists>ys. replace_doc (p\<lparr>favoriteFoods := favoriteFoods p @ [''hamburger'']\<rparr>) (people w) = Some ys \<and>
     people (call (FindEditThenSave i) w) = ys \<and>
     events (FindEditThenSave i) w =
       [StoreCall (ReqFindById i), StoreReply None (Doc p),
        StoreCall (ReqUpdate (p\<lparr>favoriteFoods := favoriteFoods p @ [''hamburger'']\<rparr>)),
        StoreReply None (Doc (p\<lparr>favoriteFoods := favoriteFoods p @ [''hamburger'']\<rparr>)),
        Done [Null, Doc (p\<lparr>favoriteFoods := favoriteFoods p @ [''hamburger'']\<rparr>)]]"
proof -
  define p' where "p' = p\<lparr>favoriteFoods := favoriteFoods p @ [''hamburger'']\<rparr>"
  define w1 where "w1 = emit (StoreReply None (Doc p)) (answered (ReqFindById i) w)"
  have i: "pid p' = i" using find_pid [OF f] by (simp add: p'_def)
  have "find (\<lambda>q. pid q = pid p') (people w) = Some p"
    using f i by simp
  then obtain ys where ys: "replace_doc p' (people w) = Some ys"
    using replace_doc_exists by blast
  have ev: "events (FindEditThenSave i) w = drop (length (trace w)) (trace (findEditThenSave i w))"
    by (simp add: events_def)
  have n1: "next_fault w = None"
  proof (cases "next_fault w")
    case (Some e)
    have "findEditThenSave i w =
        console_error e (emit (StoreReply (Some e) Undefined) (answered (ReqFindById i) w))"
      by (simp add: findEditThenSave_def Person_findById_def store_call_fault [OF Some])
    then have "failures (events (FindEditThenSave i) w) = [e]"
      by (simp add: ev console_error_def emit_simps answered_simps)
    with ok show ?thesis by simp
  qed simp
  have s1: "serve_findById i (answered (ReqFindById i) w) = ((None, Doc p), answered (ReqFindById i) w)"
    using f by (simp add: serve_findById_def found_def answered_simps)
  have c1: "findEditThenSave i w = doc_save p' reply_cb w1"
    unfolding findEditThenSave_def Person_findById_def Let_def
    by (simp add: store_call_served [where serve = "serve_findById i", OF n1 s1] p'_def w1_def reply_cb_def)
  have w1: "people w1 = people w" "trace w1 = trace w @ [StoreCall (ReqFindById i), StoreReply None (Doc p)]"
    by (simp_all add: w1_def emit_simps answered_simps)
  have n2: "next_fault w1 = None"
  proof (cases "next_fault w1")
    case (Some e)
    have "findEditThenSave i w =
        console_error e (emit (StoreReply (Some e) Undefined) (answered (ReqUpdate p') w1))"
      by (simp add: c1 doc_save_def store_call_fault [OF Some] reply_cb_simps)
    then have "failures (events (FindEditThenSave i) w) = [e]"
      by (simp add: ev console_error_def emit_simps answered_simps w1)
    with ok show ?thesis by simp
  qed simp
  have s2: "serve_update p' (answered (ReqUpdate p') w1) =
      ((None, Doc p'), (answered (ReqUpdate p') w1)\<lparr>people := ys\<rparr>)"
    using ys by (simp add: serve_update_def answered_simps w1)
  have c2: "findEditThenSave i w =
      done_cb [Null, Doc p'] (emit (StoreReply None (Doc p')) ((answered (ReqUpdate p') w1)\<lparr>people := ys\<rparr>))"
    by (simp add: c1 doc_save_def store_call_served [where serve = "serve_update p'", OF n2 s2] reply_cb_simps)
  have "people (call (FindEditThenSave i) w) = ys"
    by (simp add: c2 done_cb_def emit_simps)
  moreover have "events (FindEditThenSave i) w =
       [StoreCall (ReqFindById i), StoreReply None (Doc p), StoreCall (ReqUpdate p'),
        StoreReply None (Doc p'), Done [Null, Doc p']]"
    by (simp add: ev c2 done_cb_def emit_simps answered_simps w1)
  ultimately show ?thesis using ys by (simp add: p'_def)
qed

text \<open>
  Claim C5. For an identifier that names a stored record, when the store reports no
  failure, \<^verbatim>\<open>findEditThenSave\<close> delivers to the callback the record with
  \<^verbatim>\<open>"hamburger"\<close> appended after its former favourite foods, the store then holds
  that record under the identifier, and every other record and the order of the collection
  are as before.
\<close>

theorem findEditThenSave_appends_hamburger:
  assumes "find (\<lambda>q. pid q = i) (people w) = Some p"
    and "failures (events (FindEditThenSave i) w) = []"
  shows "done_calls (events (FindEditThenSave i) w) =
           [[Null, Doc (p\<lparr>favoriteFoods := favoriteFoods p @ [''hamburger'']\<rparr>)]] \<and>
         find (\<lambda>q. pid q = i) (people (call (FindEditThenSave i) w)) =
           Some (p\<lparr>favoriteFoods := favoriteFoods p @ [''hamburger'']\<rparr>) \<and>
         (\<forall>j. j \<noteq> i \<longrightarrow> find (\<lambda>q. pid q = j) (people (call (FindEditThenSave i) w)) =
                          find (\<lambda>q. pid q = j) (people w)) \<and>
         map pid (people (call (FindEditThenSave i) w)) = map pid (people w)"
proof -
  define p' where "p' = p\<lparr>favoriteFoods := favoriteFoods p @ [''hamburger'']\<rparr>"
  have i: "pid p' = i" using find_pid [OF assms(1)] by (simp add: p'_def)
  from events_findEditThenSave_found [OF assms] obtain ys where
    ys: "replace_doc p' (people w) = Some ys" "people (call (FindEditThenSave i) w) = ys"
    and ev: "done_calls (events (FindEditThenSave i) w) = [[Null, Doc p']]"
    unfolding p'_def by auto
  have a: "find (\<lambda>q. pid q = i) ys = Some p'"
    using replace_doc_find_same [OF ys(1)] i by simp
  have b: "\<forall>j. j \<noteq> i \<longrightarrow> find (\<lambda>q. pid q = j) ys = find (\<lambda>q. pid q = j) (people w)"
    using replace_doc_find_other [OF ys(1)] i by simp
  have c: "map pid ys = map pid (people w)"
    using ys(1) by (rule replace_doc_ids)
  from a b c ys(2) ev show ?thesis unfolding p'_def by simp
qed

lemma events_findEditThenSave_sample:
  "events (FindEditThenSave 4) sample_world =
     [StoreCall (ReqFindById 4),
      StoreReply None (Doc \<lparr>pid = 4, name = ''bob'', age = Some 7, favoriteFoods = [''burrito'']\<rparr>),
      StoreCall (ReqUpdate \<lparr>pid = 4, name = ''bob'', age = Some 7,
                  favoriteFoods = [''burrito'', ''hamburger'']\<rparr>),
      StoreReply None (Doc \<lparr>pid = 4, name = ''bob'', age = Some 7,
                  favoriteFoods = [''burrito'', ''hamburger'']\<rparr>),
      Done [Null, Doc \<lparr>pid = 4, name = ''bob'', age = Some 7,
                  favoriteFoods = [''burrito'', ''hamburger'']\<rparr>]]"
  by (simp add: sample_world_def sample_people_def findEditThenSave_def unfold_ops)

text \<open>Claim C5, witness: the record of identifier 4 in the sample store.\<close>

theorem findEditThenSave_appends_hamburger_witness:
  "find (\<lambda>q. pid q = 4) (people sample_world) =
     Some \<lparr>pid = 4, name = ''bob'', age = Some 7, favoriteFoods = [''burrito'']\<rparr> \<and>
   failures (events (FindEditThenSave 4) sample_world) = [] \<and>
   done_calls (events (FindEditThenSave 4) sample_world) =
     [[Null, Doc \<lparr>pid = 4, name = ''bob'', age = Some 7,
                   favoriteFoods = [''burrito'', ''hamburger'']\<rparr>]] \<and>
   find (\<lambda>q. pid q = 4) (people (call (FindEditThenSave 4) sample_world)) =
     Some \<lparr>pid = 4, name = ''bob'', age = Some 7, favoriteFoods = [''burrito'', ''hamburger'']\<rparr> \<and>
   map pid (people (call (FindEditThenSave 4) sample_world)) = [2, 3, 4, 5]"
proof -
  have f: "find (\<lambda>q. pid q = 4) (people sample_world) =
     Some \<lparr>pid = 4, name = ''bob'', age = Some 7, favoriteFoods = [''burrito'']\<rparr>"
    by (simp add: sample_world_def sample_people_def)
  have ok: "failures (events (FindEditThenSave 4) sample_world) = []"
    by (simp add: events_findEditThenSave_sample)
  have ids: "map pid (people sample_world) = [2, 3, 4, 5]"
    by (simp add: sample_world_def sample_people_def)
  from f ok ids findEditThenSave_appends_hamburger [OF f ok] show ?thesis
    by simp
qed

lemma find_in_set: "find P xs = Some p \<Longrightarrow> p \<in> set xs"
  by (induction xs) (auto split: if_splits)

lemma find_first_index:
  "find P xs = Some p \<Longrightarrow> \<exists>k<length xs. xs ! k = p \<and> P p \<and> (\<forall>j<k. \<not> P (xs ! j))"
  by (auto simp: find_Some_iff)

lemma replace_doc_at:
  "distinct (map pid xs) \<Longrightarrow> k < length xs \<Longrightarrow> pid p' = pid (xs ! k) \<Longrightarrow>
     replace_doc p' xs = Some (xs[k := p'])"
proof (induction xs arbitrary: k)
  case Nil
  then show ?case by simp
next
  case (Cons x xs)
  show ?case
  proof (cases k)
    case 0
    with Cons.prems show ?thesis by simp
  next
    case (Suc m)
    with Cons.prems have m: "m < length xs" "pid p' = pid (xs ! m)" "distinct (map pid xs)"
      by simp_all
    then have "pid (xs ! m) \<in> set (map pid xs)"
      by simp
    with Cons.prems(1) have "pid x \<noteq> pid (xs ! m)"
      by auto
    with m Cons.IH [OF m(3) m(1) m(2)] Suc show ?thesis
      by simp
  qed
qed

lemma events_findAndUpdate_found:
  assumes f: "find (matches (NameIs n)) (people w) = Some p"
    and ok: "failures (events (FindAndUpdate n) w) = []"
  shows "\<exists>ys. replace_doc (p\<lparr>age := Some 20\<rparr>) (people w) = Some ys \<and>
     people (call (FindAndUpdate n) w) = ys \<and>
     events (FindAndUpdate n) w =
       [StoreCall (ReqFindOne (NameIs n)), StoreReply None (Doc p),
        StoreCall (ReqUpdate (p\<lparr>age := Some 20\<rparr>)),
        StoreReply None (Doc (p\<lparr>age := Some 20\<rparr>)),
        Done [Null, Doc (p\<lparr>age := Some 20\<rparr>)]]"
proof -
  define p' where "p' = p\<lparr>age := Some 20\<rparr>"
  define w1 where "w1 = emit (StoreReply None (Doc p)) (answered (ReqFindOne (NameIs n)) w)"
  have "find (\<lambda>q. pid q = pid p) (people w) \<noteq> None"
    using find_in_set [OF f] by (auto simp: find_None_iff)
  then obtain p0 where "find (\<lambda>q. pid q = pid p') (people w) = Some p0"
    by (auto simp: p'_def)
  then obtain ys where ys: "replace_doc p' (people w) = Some ys"
    using replace_doc_exists by blast
  have ev: "events (FindAndUpdate n) w = drop (length (trace w)) (trace (findAndUpdate n w))"
    by (simp add: events_def)
  have n1: "next_fault w = None"
  proof (cases "next_fault w")
    case (Some e)
    have "findAndUpdate n w =
        console_error e (emit (StoreReply (Some e) Undefined) (answered (ReqFindOne (NameIs n)) w))"
      by (simp add: findAndUpdate_def Person_findOne_def store_call_fault [OF Some])
    then have "failures (events (FindAndUpdate n) w) = [e]"
      by (simp add: ev console_error_def emit_simps answered_simps)
    with ok show ?thesis by simp
  qed simp
  have s1: "serve_findOne (NameIs n) (answered (ReqFindOne (NameIs n)) w) =
      ((None, Doc p), answered (ReqFindOne (NameIs n)) w)"
    using f by (simp add: serve_findOne_def found_def answered_simps)
  have c1: "findAndUpdate n w = doc_save p' reply_cb w1"
    unfolding findAndUpdate_def Person_findOne_def Let_def
    by (simp add: store_call_served [where serve = "serve_findOne (NameIs n)", OF n1 s1]
          p'_def w1_def reply_cb_def)
  have w1: "people w1 = people w"
    "trace w1 = trace w @ [StoreCall (ReqFindOne (NameIs n)), StoreReply None (Doc p)]"
    by (simp_all add: w1_def emit_simps answered_simps)
  have n2: "next_fault w1 = None"
  proof (cases "next_fault w1")
    case (Some e)
    have "findAndUpdate n w =
        console_error e (emit (StoreReply (Some e) Undefined) (answered (ReqUpdate p') w1))"
      by (simp add: c1 doc_save_def store_call_fault [OF Some] reply_cb_simps)
    then have "failures (events (FindAndUpdate n) w) = [e]"
      by (simp add: ev console_error_def emit_simps answered_simps w1)
    with ok show ?thesis by simp
  qed simp
  have s2: "serve_update p' (answered (ReqUpdate p') w1) =
      ((None, Doc p'), (answered (ReqUpdate p') w1)\<lparr>people := ys\<rparr>)"
    using ys by (simp add: serve_update_def answered_simps w1)
  have c2: "findAndUpdate n w =
      done_cb [Null, Doc p'] (emit (StoreReply None (Doc p')) ((answered (ReqUpdate p') w1)\<lparr>people := ys\<rparr>))"
    by (simp add: c1 doc_save_def store_call_served [where serve = "serve_update p'", OF n2 s2] reply_cb_simps)
  have "people (call (FindAndUpdate n) w) = ys"
    by (simp add: c2 done_cb_def emit_simps)
  moreover have "events (FindAndUpdate n) w =
       [StoreCall (ReqFindOne (NameIs n)), StoreReply None (Doc p), StoreCall (ReqUpdate p'),
        StoreReply None (Doc p'), Done [Null, Doc p']]"
    by (simp add: ev c2 done_cb_def emit_simps answered_simps w1)
  ultimately show ?thesis using ys by (simp add: p'_def)
qed

lemma events_findPersonById:
  "events (FindPersonById i) w =
     (case next_fault w of
        None \<Rightarrow> [StoreCall (ReqFindById i), StoreReply None (found (find (\<lambda>q. pid q = i) (people w))),
                  Done [Null, found (find (\<lambda>q. pid q = i) (people w))]]
      | Some e \<Rightarrow> [StoreCall (ReqFindById i), StoreReply (Some e) Undefined, ConsoleError e])"
  by (auto simp: findPersonById_def events_def client_defs store_call_def serve_defs effect_defs
        Let_def next_fault_def split: list.splits option.splits)

lemma findPersonById_delivers:
  "failures (events (FindPersonById i) w) = [] \<Longrightarrow>
     done_calls (events (FindPersonById i) w) = [[Null, found (find (\<lambda>q. pid q = i) (people w))]]"
  by (simp add: events_findPersonById split: option.splits)

text \<open>
  Claim C6. For a name that some stored record has, in a store whose identifiers are
  unique, when the store reports no failure: \<^verbatim>\<open>findAndUpdate\<close> delivers the first
  matching record with its age set to 20; the collection afterwards is the former one with
  that record, and no other, replaced; and a following \<^verbatim>\<open>findPersonById\<close> on the
  record's identifier, when it goes through, delivers the record with age 20.
\<close>

theorem findAndUpdate_sets_age_of_first_match:
  assumes f: "find (matches (NameIs n)) (people w) = Some p"
    and d: "distinct (map pid (people w))"
    and ok: "failures (events (FindAndUpdate n) w) = []"
  shows "done_calls (events (FindAndUpdate n) w) = [[Null, Doc (p\<lparr>age := Some 20\<rparr>)]] \<and>
         (\<exists>k<length (people w). people w ! k = p \<and> name p = n \<and>
              (\<forall>j<k. name (people w ! j) \<noteq> n) \<and>
              people (call (FindAndUpdate n) w) = (people w)[k := p\<lparr>age := Some 20\<rparr>]) \<and>
         (failures (events (FindPersonById (pid p)) (call (FindAndUpdate n) w)) = [] \<longrightarrow>
            done_calls (events (FindPersonById (pid p)) (call (FindAndUpdate n) w)) =
              [[Null, Doc (p\<lparr>age := Some 20\<rparr>)]])"
proof -
  define p' where "p' = p\<lparr>age := Some 20\<rparr>"
  have i: "pid p' = pid p" by (simp add: p'_def)
  from events_findAndUpdate_found [OF f ok] obtain ys where
    ys: "replace_doc p' (people w) = Some ys" "people (call (FindAndUpdate n) w) = ys"
    and ev: "done_calls (events (FindAndUpdate n) w) = [[Null, Doc p']]"
    unfolding p'_def by auto
  from find_first_index [OF f] obtain k where
    k: "k < length (people w)" "people w ! k = p" "name p = n" "\<forall>j<k. name (people w ! j) \<noteq> n"
    by auto
  have "replace_doc p' (people w) = Some ((people w)[k := p'])"
    using d k(1) i k(2) by (simp add: replace_doc_at)
  with ys have at: "people (call (FindAndUpdate n) w) = (people w)[k := p']"
    by simp
  have "find (\<lambda>q. pid q = pid p) ys = Some p'"
    using replace_doc_find_same [OF ys(1)] i by simp
  then have re: "failures (events (FindPersonById (pid p)) (call (FindAndUpdate n) w)) = [] \<longrightarrow>
            done_calls (events (FindPersonById (pid p)) (call (FindAndUpdate n) w)) = [[Null, Doc p']]"
    using ys(2) by (simp add: findPersonById_delivers found_def)
  from ev k at re show ?thesis unfolding p'_def by blast
qed

lemma events_findAndUpdate_sample:
  "events (FindAndUpdate ''amy'') sample_world =
     [StoreCall (ReqFindOne (NameIs ''amy'')),
      StoreReply None (Doc \<lparr>pid = 3, name = ''amy'', age = None, favoriteFoods = [''burrito'', ''taco'']\<rparr>),
      StoreCall (ReqUpdate \<lparr>pid = 3, name = ''amy'', age = Some 20, favoriteFoods = [''burrito'', ''taco'']\<rparr>),
      StoreReply None (Doc \<lparr>pid = 3, name = ''amy'', age = Some 20, favoriteFoods = [''burrito'', ''taco'']\<rparr>),
      Done [Null, Doc \<lparr>pid = 3, name = ''amy'', age = Some 20, favoriteFoods = [''burrito'', ''taco'']\<rparr>]]"
  by (simp add: sample_world_def sample_people_def findAndUpdate_def unfold_ops)

lemma people_findAndUpdate_sample:
  "people (call (FindAndUpdate ''amy'') sample_world) =
     [\<lparr>pid = 2, name = ''zed'', age = Some 5, favoriteFoods = [''burrito'']\<rparr>,
      \<lparr>pid = 3, name = ''amy'', age = Some 20, favoriteFoods = [''burrito'', ''taco'']\<rparr>,
      \<lparr>pid = 4, name = ''bob'', age = Some 7, favoriteFoods = [''burrito'']\<rparr>,
      \<lparr>pid = 5, name = ''amy'', age = Some 9, favoriteFoods = []\<rparr>]"
  by (simp add: sample_world_def sample_people_def findAndUpdate_def unfold_ops)

lemma faults_findAndUpdate_sample:
  "faults (call (FindAndUpdate ''amy'') sample_world) = []"
  by (simp add: sample_world_def sample_people_def findAndUpdate_def unfold_ops)

text \<open>Claim C6, witness: two records are named amy in the sample store; the first one
  has identifier 3.\<close>

theorem findAndUpdate_sets_age_of_first_match_witness:
  "find (matches (NameIs ''amy'')) (people sample_world) =
     Some \<lparr>pid = 3, name = ''amy'', age = None, favoriteFoods = [''burrito'', ''taco'']\<rparr> \<and>
   distinct (map pid (people sample_world)) \<and>
   failures (events (FindAndUpdate ''amy'') sample_world) = [] \<and>
   done_calls (events (FindAndUpdate ''amy'') sample_world) =
     [[Null, Doc \<lparr>pid = 3, name = ''amy'', age = Some 20, favoriteFoods = [''burrito'', ''taco'']\<rparr>]] \<and>
   failures (events (FindPersonById 3) (call (FindAndUpdate ''amy'') sample_world)) = [] \<and>
   done_calls (events (FindPersonById 3) (call (FindAndUpdate ''amy'') sample_world)) =
     [[Null, Doc \<lparr>pid = 3, name = ''amy'', age = Some 20, favoriteFoods = [''burrito'', ''taco'']\<rparr>]] \<and>
   people (call (FindAndUpdate ''amy'') sample_world) =
     [\<lparr>pid = 2, name = ''zed'', age = Some 5, favoriteFoods = [''burrito'']\<rparr>,
      \<lparr>pid = 3, name = ''amy'', age = Some 20, favoriteFoods = [''burrito'', ''taco'']\<rparr>,
      \<lparr>pid = 4, name = ''bob'', age = Some 7, favoriteFoods = [''burrito'']\<rparr>,
      \<lparr>pid = 5, name = ''amy'', age = Some 9, favoriteFoods = []\<rparr>]"
proof -
  have f: "find (matches (NameIs ''amy'')) (people sample_world) =
     Some \<lparr>pid = 3, name = ''amy'', age = None, favoriteFoods = [''burrito'', ''taco'']\<rparr>"
    by (simp add: sample_world_def sample_people_def)
  have d: "distinct (map pid (people sample_world))"
    by (simp add: sample_world_def sample_people_def)
  have ok: "failures (events (FindAndUpdate ''amy'') sample_world) = []"
    by (simp add: events_findAndUpdate_sample)
  have ok2: "failures (events (FindPersonById 3) (call (FindAndUpdate ''amy'') sample_world)) = []"
    using faults_findAndUpdate_sample by (simp add: events_findPersonById next_fault_def)
  from f d ok ok2 people_findAndUpdate_sample
    findAndUpdate_sets_age_of_first_match [OF f d ok] show ?thesis
    by simp
qed

subsection \<open>Deleting by identifier (C7)\<close>

lemma remove_first_ids: "set (map pid (remove_first i xs)) \<subseteq> set (map pid xs)"
  by (induction xs) auto

lemma remove_first_gone:
  "distinct (map pid xs) \<Longrightarrow> find (\<lambda>q. pid q = i) (remove_first i xs) = None"
proof (induction xs)
  case Nil
  then show ?case by simp
next
  case (Cons x xs)
  show ?case
  proof (cases "pid x = i")
    case True
    with Cons.prems have "i \<notin> set (map pid xs)" by auto
    then have "find (\<lambda>q. pid q = i) xs = None"
      by (auto simp: find_None_iff)
    with True show ?thesis by simp
  next
    case False
    with Cons show ?thesis by simp
  qed
qed

lemma events_removeById:
  "events (RemoveById i) w =
     (case next_fault w of
        None \<Rightarrow> [StoreCall (ReqFindByIdAndRemove i),
                  StoreReply None (found (find (\<lambda>q. pid q = i) (people w))),
                  Done [Null, found (find (\<lambda>q. pid q = i) (people w))]]
      | Some e \<Rightarrow> [StoreCall (ReqFindByIdAndRemove i), StoreReply (Some e) Undefined, ConsoleError e])"
  by (auto simp: removeById_def events_def client_defs store_call_def serve_defs effect_defs
        Let_def next_fault_def split: list.splits option.splits)

lemma people_removeById:
  "next_fault w = None \<Longrightarrow> people (call (RemoveById i) w) = remove_first i (people w)"
  by (auto simp: removeById_def client_defs store_call_def serve_defs effect_defs
        Let_def next_fault_def split: list.splits option.splits)

text \<open>
  Claim C7. For an identifier that names a stored record, in a store whose identifiers
  are unique, when the store reports no failure: \<^verbatim>\<open>removeById\<close> delivers the record
  as it was stored, the record is removed, and a following \<^verbatim>\<open>findPersonById\<close> on the
  same identifier, when it goes through, delivers the absent-result marker.
\<close>

theorem removeById_then_findPersonById_absent:
  assumes f: "find (\<lambda>q. pid q = i) (people w) = Some p"
    and d: "distinct (map pid (people w))"
    and ok: "failures (events (RemoveById i) w) = []"
  shows "done_calls (events (RemoveById i) w) = [[Null, Doc p]] \<and>
         people (call (RemoveById i) w) = remove_first i (people w) \<and>
         (failures (events (FindPersonById i) (call (RemoveById i) w)) = [] \<longrightarrow>
            done_calls (events (FindPersonById i) (call (RemoveById i) w)) = [[Null, Null]])"
proof -
  have n: "next_fault w = None"
    using ok by (cases "next_fault w") (simp_all add: events_removeById)
  have a: "done_calls (events (RemoveById i) w) = [[Null, Doc p]]"
    using n f by (simp add: events_removeById found_def)
  have b: "people (call (RemoveById i) w) = remove_first i (people w)"
    using n by (rule people_removeById)
  have "find (\<lambda>q. pid q = i) (people (call (RemoveById i) w)) = None"
    unfolding b using d by (rule remove_first_gone)
  then have c: "failures (events (FindPersonById i) (call (RemoveById i) w)) = [] \<longrightarrow>
            done_calls (events (FindPersonById i) (call (RemoveById i) w)) = [[Null, Null]]"
    by (simp add: findPersonById_delivers found_def)
  from a b c show ?thesis by blast
qed

lemma faults_removeById_sample: "faults (call (RemoveById 4) sample_world) = []"
  by (simp add: sample_world_def sample_people_def removeById_def unfold_ops)

text \<open>Claim C7, witness: the record of identifier 4 in the sample store.\<close>

theorem removeById_then_findPersonById_absent_witness:
  "find (\<lambda>q. pid q = 4) (people sample_world) =
     Some \<lparr>pid = 4, name = ''bob'', age = Some 7, favoriteFoods = [''burrito'']\<rparr> \<and>
   distinct (map pid (people sample_world)) \<and>
   failures (events (RemoveById 4) sample_world) = [] \<and>
   done_calls (events (RemoveById 4) sample_world) =
     [[Null, Doc \<lparr>pid = 4, name = ''bob'', age = Some 7, favoriteFoods = [''burrito'']\<rparr>]] \<and>
   map pid (people (call (RemoveById 4) sample_world)) = [2, 3, 5] \<and>
   failures (events (FindPersonById 4) (call (RemoveById 4) sample_world)) = [] \<and>
   done_calls (events (FindPersonById 4) (call (RemoveById 4) sample_world)) = [[Null, Null]]"
proof -
  have f: "find (\<lambda>q. pid q = 4) (people sample_world) =
     Some \<lparr>pid = 4, name = ''bob'', age = Some 7, favoriteFoods = [''burrito'']\<rparr>"
    by (simp add: sample_world_def sample_people_def)
  have d: "distinct (map pid (people sample_world))"
    by (simp add: sample_world_def sample_people_def)
  have ok: "failures (events (RemoveById 4) sample_world) = []"
    by (simp add: events_removeById_sample)
  have ok2: "failures (events (FindPersonById 4) (call (RemoveById 4) sample_world)) = []"
    using faults_removeById_sample by (simp add: events_findPersonById next_fault_def)
  have r: "map pid (remove_first 4 (people sample_world)) = [2, 3, 5]"
    by (simp add: sample_world_def sample_people_def)
  from f d ok ok2 r removeById_then_findPersonById_absent [OF f d ok] show ?thesis
    by simp
qed

subsection \<open>Inserting (C8, C9)\<close>

lemma insert_all_result: "insert_all ps coll = Inr coll' \<Longrightarrow> coll' = coll @ ps"
proof (induction ps arbitrary: coll)
  case Nil
  then show ?case by simp
next
  case (Cons p ps)
  from Cons.prems have "insert_all ps (coll @ [p]) = Inr coll'"
    by (auto split: if_splits)
  from Cons.IH [OF this] show ?case by simp
qed

lemma validate_all_result:
  "validate_all ds = Inr ps \<Longrightarrow>
     map pid ps = map d_id ds \<and>
     map (\<lambda>q. Some (name q)) ps = map (\<lambda>d. p_name (d_fields d)) ds \<and>
     map age ps = map (\<lambda>d. p_age (d_fields d)) ds \<and>
     map favoriteFoods ps = map (\<lambda>d. p_favoriteFoods (d_fields d)) ds"
  by (induction ds arbitrary: ps)
     (auto simp: validate_def split: sum.splits option.splits)

lemma events_createAndSavePerson:
  "events CreateAndSavePerson w =
     (let d = \<lparr>d_id = next_oid w, d_fields = \<lparr>p_name = Some ''John G'', p_age = Some 30,
                  p_favoriteFoods = [''pasta'', ''fries'', ''burgers'']\<rparr>\<rparr>;
          john = \<lparr>pid = next_oid w, name = ''John G'', age = Some 30,
                  favoriteFoods = [''pasta'', ''fries'', ''burgers'']\<rparr>
      in case next_fault w of
           Some e \<Rightarrow> [StoreCall (ReqInsert [d]), StoreReply (Some e) Undefined, ConsoleError e]
         | None \<Rightarrow>
             if next_oid w \<in> set (map pid (people w))
             then [StoreCall (ReqInsert [d]), StoreReply (Some (DuplicateKey (next_oid w))) Undefined,
                   ConsoleError (DuplicateKey (next_oid w))]
             else [StoreCall (ReqInsert [d]), StoreReply None (Doc john), Done [Null, Doc john]])"
  by (auto simp: createAndSavePerson_def new_Person_def events_def client_defs store_call_def
        serve_defs effect_defs validate_def Let_def next_fault_def
      split: list.splits option.splits)

lemma people_createAndSavePerson:
  "next_fault w = None \<Longrightarrow> next_oid w \<notin> set (map pid (people w)) \<Longrightarrow>
     people (call CreateAndSavePerson w) =
       people w @ [\<lparr>pid = next_oid w, name = ''John G'', age = Some 30,
                    favoriteFoods = [''pasta'', ''fries'', ''burgers'']\<rparr>]"
  by (auto simp: createAndSavePerson_def new_Person_def client_defs store_call_def
        serve_defs effect_defs validate_def Let_def next_fault_def
      split: list.splits option.splits)

lemma find_append_fresh:
  "i \<notin> set (map pid xs) \<Longrightarrow> pid p = i \<Longrightarrow> find (\<lambda>q. pid q = i) (xs @ [p]) = Some p"
  by (induction xs) auto

text \<open>
  Claim C8. When the store reports no failure, \<^verbatim>\<open>createAndSavePerson\<close> delivers the
  created record, with the fixed name, age and favourite foods under the assigned
  identifier, and a following \<^verbatim>\<open>findPersonById\<close> on that identifier, when it goes
  through, delivers an equal record.
\<close>

theorem createAndSavePerson_then_findPersonById:
  assumes ok: "failures (events CreateAndSavePerson w) = []"
  shows "done_calls (events CreateAndSavePerson w) =
           [[Null, Doc \<lparr>pid = next_oid w, name = ''John G'', age = Some 30,
                         favoriteFoods = [''pasta'', ''fries'', ''burgers'']\<rparr>]] \<and>
         (failures (events (FindPersonById (next_oid w)) (call CreateAndSavePerson w)) = [] \<longrightarrow>
            done_calls (events (FindPersonById (next_oid w)) (call CreateAndSavePerson w)) =
              [[Null, Doc \<lparr>pid = next_oid w, name = ''John G'', age = Some 30,
                            favoriteFoods = [''pasta'', ''fries'', ''burgers'']\<rparr>]])"
proof -
  define john where "john = \<lparr>pid = next_oid w, name = ''John G'', age = Some 30,
                         favoriteFoods = [''pasta'', ''fries'', ''burgers'']\<rparr>"
  have n: "next_fault w = None"
    using ok by (cases "next_fault w") (simp_all add: events_createAndSavePerson Let_def)
  have fresh: "next_oid w \<notin> set (map pid (people w))"
  proof
    assume "next_oid w \<in> set (map pid (people w))"
    with n have "failures (events CreateAndSavePerson w) = [DuplicateKey (next_oid w)]"
      by (simp add: events_createAndSavePerson Let_def)
    with ok show False by simp
  qed
  have a: "done_calls (events CreateAndSavePerson w) = [[Null, Doc john]]"
    using n fresh by (simp add: events_createAndSavePerson john_def Let_def)
  have "people (call CreateAndSavePerson w) = people w @ [john]"
    unfolding john_def using n fresh by (rule people_createAndSavePerson)
  moreover have "find (\<lambda>q. pid q = next_oid w) (people w @ [john]) = Some john"
    using fresh by (rule find_append_fresh) (simp add: john_def)
  ultimately have "find (\<lambda>q. pid q = next_oid w) (people (call CreateAndSavePerson w)) = Some john"
    by simp
  then have b: "failures (events (FindPersonById (next_oid w)) (call CreateAndSavePerson w)) = [] \<longrightarrow>
            done_calls (events (FindPersonById (next_oid w)) (call CreateAndSavePerson w)) = [[Null, Doc john]]"
    by (simp add: findPersonById_delivers found_def)
  from a b show ?thesis unfolding john_def by blast
qed

lemma faults_createAndSavePerson_sample: "faults (call CreateAndSavePerson sample_world) = []"
  by (simp add: sample_world_def sample_people_def createAndSavePerson_def new_Person_def
        validate_def unfold_ops)

text \<open>Claim C8, witness: the insert into the sample store assigns identifier 6.\<close>

theorem createAndSavePerson_then_findPersonById_witness:
  "failures (events CreateAndSavePerson sample_world) = [] \<and>
   done_calls (events CreateAndSavePerson sample_world) =
     [[Null, Doc \<lparr>pid = 6, name = ''John G'', age = Some 30,
                   favoriteFoods = [''pasta'', ''fries'', ''burgers'']\<rparr>]] \<and>
   failures (events (FindPersonById 6) (call CreateAndSavePerson sample_world)) = [] \<and>
   done_calls (events (FindPersonById 6) (call CreateAndSavePerson sample_world)) =
     [[Null, Doc \<lparr>pid = 6, name = ''John G'', age = Some 30,
                   favoriteFoods = [''pasta'', ''fries'', ''burgers'']\<rparr>]]"
proof -
  have i: "next_oid sample_world = 6"
    by (simp add: sample_world_def)
  have ok: "failures (events CreateAndSavePerson sample_world) = []"
    by (simp add: events_createAndSavePerson next_fault_def sample_world_def sample_people_def Let_def)
  have ok2: "failures (events (FindPersonById 6) (call CreateAndSavePerson sample_world)) = []"
    using faults_createAndSavePerson_sample by (simp add: events_findPersonById next_fault_def)
  from i ok ok2 createAndSavePerson_then_findPersonById [OF ok] show ?thesis
    by simp
qed

lemma createManyPeople_succeeds:
  assumes ok: "failures (events (CreateManyPeople fs) w) = []"
  shows "\<exists>ds ps. map d_id ds = [next_oid w ..< next_oid w + length fs] \<and> map d_fields ds = fs \<and>
           validate_all ds = Inr ps \<and>
           events (CreateManyPeople fs) w =
             [StoreCall (ReqInsert ds), StoreReply None (Docs ps), Done [Null, Docs ps]] \<and>
           people (call (CreateManyPeople fs) w) = people w @ ps"
proof -
  obtain ds w1 where np: "new_People fs w = (ds, w1)"
    by (cases "new_People fs w")
  from new_People_result [OF np] have w1: "w1 = w\<lparr>next_oid := next_oid w + length fs\<rparr>"
    and ids: "map d_id ds = [next_oid w ..< next_oid w + length fs]"
    and fields: "map d_fields ds = fs"
    by simp_all
  have c0: "createManyPeople fs w = store_call (ReqInsert ds) (serve_insert ds Docs) reply_cb w1"
    by (simp add: createManyPeople_def Person_create_def np reply_cb_def)
  have ev: "events (CreateManyPeople fs) w = drop (length (trace w)) (trace (createManyPeople fs w))"
    by (simp add: events_def)
  have tr: "trace w1 = trace w" "people w1 = people w"
    by (simp_all add: w1)
  have n: "next_fault w1 = None"
  proof (cases "next_fault w1")
    case (Some e)
    have "createManyPeople fs w =
        console_error e (emit (StoreReply (Some e) Undefined) (answered (ReqInsert ds) w1))"
      by (simp add: c0 store_call_fault [OF Some] reply_cb_simps)
    then have "failures (events (CreateManyPeople fs) w) = [e]"
      by (simp add: ev console_error_def emit_simps answered_simps tr)
    with ok show ?thesis by simp
  qed simp
  obtain r w2 where sv: "serve_insert ds Docs (answered (ReqInsert ds) w1) = (r, w2)"
    by (cases "serve_insert ds Docs (answered (ReqInsert ds) w1)")
  have c1: "createManyPeople fs w = reply_cb r (emit (StoreReply (fst r) (snd r)) w2)"
    by (simp add: c0 store_call_served [where serve = "serve_insert ds Docs", OF n sv])
  have w2: "trace w2 = trace w @ [StoreCall (ReqInsert ds)]"
    using sv by (auto simp: serve_insert_def answered_simps tr split: sum.splits)
  have r: "fst r = None"
  proof (cases "fst r")
    case (Some e)
    then have "r = (Some e, snd r)" by (cases r) simp
    then have "createManyPeople fs w = console_error e (emit (StoreReply (Some e) (snd r)) w2)"
      using c1 reply_cb_simps(1) [of e "snd r"] by (metis fst_conv)
    then have "failures (events (CreateManyPeople fs) w) = [e]"
      by (simp add: ev console_error_def emit_simps w2)
    with ok show ?thesis by simp
  qed simp
  from sv r obtain ps where ps: "validate_all ds = Inr ps"
    and r2: "r = (None, Docs ps)"
    and coll: "insert_all ps (people w) = Inr (people w2)"
    by (auto simp: serve_insert_def answered_simps tr split: sum.splits)
  have pw: "people w2 = people w @ ps"
    using coll by (rule insert_all_result)
  have c2: "createManyPeople fs w = done_cb [Null, Docs ps] (emit (StoreReply None (Docs ps)) w2)"
    by (simp add: c1 r2 reply_cb_simps)
  have e1: "events (CreateManyPeople fs) w =
             [StoreCall (ReqInsert ds), StoreReply None (Docs ps), Done [Null, Docs ps]]"
    by (simp add: ev c2 done_cb_def emit_simps w2)
  have e2: "people (call (CreateManyPeople fs) w) = people w @ ps"
    by (simp add: c2 done_cb_def emit_simps pw)
  from ids fields ps e1 e2 show ?thesis by blast
qed

text \<open>
  Claim C9. When the store reports no failure, \<^verbatim>\<open>createManyPeople\<close> delivers as
  many created records as there are payloads, with pairwise distinct identifiers, each
  with the fields of its payload, and the collection grows by exactly these records.
\<close>

theorem createManyPeople_creates_N_distinct:
  assumes ok: "failures (events (CreateManyPeople fs) w) = []"
  shows "\<exists>ps. done_calls (events (CreateManyPeople fs) w) = [[Null, Docs ps]] \<and>
              length ps = length fs \<and> distinct (map pid ps) \<and>
              map (\<lambda>q. Some (name q)) ps = map p_name fs \<and>
              map age ps = map p_age fs \<and>
              map favoriteFoods ps = map p_favoriteFoods fs \<and>
              people (call (CreateManyPeople fs) w) = people w @ ps"
proof -
  from createManyPeople_succeeds [OF ok] obtain ds ps where
    ids: "map d_id ds = [next_oid w ..< next_oid w + length fs]"
    and fields: "map d_fields ds = fs"
    and v: "validate_all ds = Inr ps"
    and ev: "events (CreateManyPeople fs) w =
             [StoreCall (ReqInsert ds), StoreReply None (Docs ps), Done [Null, Docs ps]]"
    and pp: "people (call (CreateManyPeople fs) w) = people w @ ps"
    by blast
  from validate_all_result [OF v] have
    pid: "map pid ps = map d_id ds"
    and nm: "map (\<lambda>q. Some (name q)) ps = map (\<lambda>d. p_name (d_fields d)) ds"
    and ag: "map age ps = map (\<lambda>d. p_age (d_fields d)) ds"
    and ff: "map favoriteFoods ps = map (\<lambda>d. p_favoriteFoods (d_fields d)) ds"
    by simp_all
  have a: "done_calls (events (CreateManyPeople fs) w) = [[Null, Docs ps]]"
    by (simp add: ev)
  have "length (map pid ps) = length [next_oid w ..< next_oid w + length fs]"
    using pid ids by simp
  then have b: "length ps = length fs" by simp
  have c: "distinct (map pid ps)"
    using pid ids by simp
  have "map (\<lambda>d. p_name (d_fields d)) ds = map p_name (map d_fields ds)"
    by (simp add: comp_def)
  with nm fields have d: "map (\<lambda>q. Some (name q)) ps = map p_name fs" by simp
  have "map (\<lambda>d. p_age (d_fields d)) ds = map p_age (map d_fields ds)"
    by (simp add: comp_def)
  with ag fields have e: "map age ps = map p_age fs" by simp
  have "map (\<lambda>d. p_favoriteFoods (d_fields d)) ds = map p_favoriteFoods (map d_fields ds)"
    by (simp add: comp_def)
  with ff fields have f: "map favoriteFoods ps = map p_favoriteFoods fs" by simp
  from a b c d e f pp show ?thesis by blast
qed

lemma events_createManyPeople_sample:
  "events (CreateManyPeople arrayOfPeople) sample_world =
     [StoreCall (ReqInsert
        [\<lparr>d_id = 6, d_fields = \<lparr>p_name = Some ''jimmy'', p_age = Some 30, p_favoriteFoods = [''burgers'']\<rparr>\<rparr>,
         \<lparr>d_id = 7, d_fields = \<lparr>p_name = Some ''john'', p_age = Some 24, p_favoriteFoods = [''fries'']\<rparr>\<rparr>,
         \<lparr>d_id = 8, d_fields = \<lparr>p_name = Some ''jay'', p_age = Some 28, p_favoriteFoods = [''avocado eww'']\<rparr>\<rparr>]),
      StoreReply None (Docs
        [\<lparr>pid = 6, name = ''jimmy'', age = Some 30, favoriteFoods = [''burgers'']\<rparr>,
         \<lparr>pid = 7, name = ''john'', age = Some 24, favoriteFoods = [''fries'']\<rparr>,
         \<lparr>pid = 8, name = ''jay'', age = Some 28, favoriteFoods = [''avocado eww'']\<rparr>]),
      Done [Null, Docs
        [\<lparr>pid = 6, name = ''jimmy'', age = Some 30, favoriteFoods = [''burgers'']\<rparr>,
         \<lparr>pid = 7, name = ''john'', age = Some 24, favoriteFoods = [''fries'']\<rparr>,
         \<lparr>pid = 8, name = ''jay'', age = Some 28, favoriteFoods = [''avocado eww'']\<rparr>]]]"
  by (simp add: sample_world_def sample_people_def arrayOfPeople_def createManyPeople_def
        new_Person_def validate_def unfold_ops)

text \<open>Claim C9, witness: the three-element sample batch of the source.\<close>

theorem createManyPeople_creates_N_distinct_witness:
  "failures (events (CreateManyPeople arrayOfPeople) sample_world) = [] \<and>
   length arrayOfPeople = 3 \<and>
   done_calls (events (CreateManyPeople arrayOfPeople) sample_world) =
     [[Null, Docs
        [\<lparr>pid = 6, name = ''jimmy'', age = Some 30, favoriteFoods = [''burgers'']\<rparr>,
         \<lparr>pid = 7, name = ''john'', age = Some 24, favoriteFoods = [''fries'']\<rparr>,
         \<lparr>pid = 8, name = ''jay'', age = Some 28, favoriteFoods = [''avocado eww'']\<rparr>]]]"
proof -
  have ok: "failures (events (CreateManyPeople arrayOfPeople) sample_world) = []"
    by (simp add: events_createManyPeople_sample)
  have n: "length arrayOfPeople = 3"
    by (simp add: arrayOfPeople_def)
  from ok n createManyPeople_creates_N_distinct [OF ok] show ?thesis
    by (simp add: events_createManyPeople_sample)
qed

subsection \<open>Frame and invariant\<close>

text \<open>
  A call only appends to the trace, so \<open>events\<close> is what the call added; and every
  operation keeps the identifiers of the collection unique, which is the hypothesis of the
  theorems on \<^verbatim>\<open>findAndUpdate\<close> and \<^verbatim>\<open>removeById\<close>.
\<close>

lemma trace_createManyPeople:
  "trace (createManyPeople fs w) = trace w @ events (CreateManyPeople fs) w"
proof (cases "new_People fs w")
  case (Pair ds w1)
  from new_People_result [OF Pair] Pair show ?thesis
    by (auto simp: createManyPeople_def unfold_ops split: list.splits option.splits sum.splits)
qed

lemma trace_call: "trace (call opn w) = trace w @ events opn w"
proof (cases opn)
  case CreateAndSavePerson
  then show ?thesis
    by (auto simp: createAndSavePerson_def new_Person_def unfold_ops
        split: list.splits option.splits sum.splits)
next
  case (FindPeopleByName n)
  then show ?thesis
    by (auto simp: findPeopleByName_def unfold_ops split: list.splits option.splits)
next
  case (FindOneByFood f)
  then show ?thesis
    by (auto simp: findOneByFood_def unfold_ops split: list.splits option.splits)
next
  case (FindPersonById i)
  then show ?thesis
    by (auto simp: findPersonById_def unfold_ops split: list.splits option.splits)
next
  case (FindEditThenSave i)
  then show ?thesis
    by (auto simp: findEditThenSave_def unfold_ops split: list.splits option.splits)
next
  case (FindAndUpdate n)
  then show ?thesis
    by (auto simp: findAndUpdate_def unfold_ops split: list.splits option.splits)
next
  case (CreateManyPeople fs)
  then show ?thesis using trace_createManyPeople by simp
next
  case (RemoveById i)
  then show ?thesis
    by (auto simp: removeById_def unfold_ops split: list.splits option.splits)
next
  case RemoveManyPeople
  then show ?thesis
    by (auto simp: removeManyPeople_def unfold_ops split: list.splits option.splits)
next
  case QueryChain
  then show ?thesis
    by (auto simp: queryChain_def unfold_ops split: list.splits option.splits)
qed

lemma insert_all_distinct:
  "insert_all ps coll = Inr coll' \<Longrightarrow> distinct (map pid coll) \<Longrightarrow> distinct (map pid coll')"
proof (induction ps arbitrary: coll)
  case Nil
  then show ?case by simp
next
  case (Cons p ps)
  from Cons.prems have a: "pid p \<notin> set (map pid coll)" and b: "insert_all ps (coll @ [p]) = Inr coll'"
    by (auto split: if_splits)
  from a Cons.prems(2) have "distinct (map pid (coll @ [p]))" by simp
  from Cons.IH [OF b this] show ?case .
qed

lemma remove_first_distinct:
  "distinct (map pid xs) \<Longrightarrow> distinct (map pid (remove_first i xs))"
proof (induction xs)
  case Nil
  then show ?case by simp
next
  case (Cons x xs)
  have "set (map pid (remove_first i xs)) \<subseteq> set (map pid xs)"
    by (rule remove_first_ids)
  with Cons show ?case by auto
qed

lemma distinct_createManyPeople:
  assumes "distinct (map pid (people w))"
  shows "distinct (map pid (people (createManyPeople fs w)))"
proof (cases "new_People fs w")
  case (Pair ds w1)
  from new_People_result [OF Pair] Pair assms show ?thesis
    by (auto simp: createManyPeople_def unfold_ops dest: insert_all_distinct
        split: list.splits option.splits sum.splits)
qed

lemma unique_ids_preserved:
  assumes d: "distinct (map pid (people w))"
  shows "distinct (map pid (people (call opn w)))"
proof (cases opn)
  case CreateAndSavePerson
  with d show ?thesis
    by (auto simp: createAndSavePerson_def new_Person_def unfold_ops validate_def
        split: list.splits option.splits sum.splits if_splits)
next
  case (FindPeopleByName n)
  with d show ?thesis
    by (auto simp: findPeopleByName_def unfold_ops split: list.splits option.splits)
next
  case (FindOneByFood f)
  with d show ?thesis
    by (auto simp: findOneByFood_def unfold_ops split: list.splits option.splits)
next
  case (FindPersonById i)
  with d show ?thesis
    by (auto simp: findPersonById_def unfold_ops split: list.splits option.splits)
next
  case (FindEditThenSave i)
  with d show ?thesis
    by (auto simp: findEditThenSave_def unfold_ops dest: replace_doc_ids
        split: list.splits option.splits)
next
  case (FindAndUpdate n)
  with d show ?thesis
    by (auto simp: findAndUpdate_def unfold_ops dest: replace_doc_ids
        split: list.splits option.splits)
next
  case (CreateManyPeople fs)
  with d show ?thesis using distinct_createManyPeople by simp
next
  case (RemoveById i)
  with d show ?thesis
    by (auto simp: removeById_def unfold_ops remove_first_distinct split: list.splits option.splits)
next
  case RemoveManyPeople
  with d show ?thesis
    by (auto simp: removeManyPeople_def unfold_ops distinct_map_filter split: list.splits option.splits)
next
  case QueryChain
  with d show ?thesis
    by (auto simp: queryChain_def unfold_ops split: list.splits option.splits)
qed

end
